theory Spec2Isabelle
  imports Main
begin

section \<open>Python strings\<close>

text \<open>
  A Python \<open>str\<close> is modelled as a \<open>string\<close>, one \<open>char\<close> per code point; only code
  points below 256 are representable.  \<open>str.isspace\<close> holds on exactly the following
  code points of that range, which are also the ones \<open>str.strip\<close>, \<open>str.lstrip\<close>
  and the regex class \<open>\s\<close> use.
\<close>

definition whitespace_chars :: "char list" where
  "whitespace_chars =
     [CHR 0x09, CHR 0x0A, CHR 0x0B, CHR 0x0C, CHR 0x0D,
      CHR 0x1C, CHR 0x1D, CHR 0x1E, CHR 0x1F, CHR 0x20, CHR 0x85, CHR 0xA0]"

definition is_space :: "char \<Rightarrow> bool" where
  "is_space c = (c \<in> set whitespace_chars)"

definition lstrip :: "string \<Rightarrow> string" where
  "lstrip s = dropWhile is_space s"

definition rstrip :: "string \<Rightarrow> string" where
  "rstrip s = rev (dropWhile is_space (rev s))"

definition strip :: "string \<Rightarrow> string" where
  "strip s = lstrip (rstrip s)"

text \<open>\<open>s.startswith(p)\<close>, \<open>s.endswith(p)\<close> and \<open>p in s\<close>.\<close>

definition startswith :: "string \<Rightarrow> string \<Rightarrow> bool" where
  "startswith s p = (take (length p) s = p)"

definition endswith :: "string \<Rightarrow> string \<Rightarrow> bool" where
  "endswith s p = (length p \<le> length s \<and> drop (length s - length p) s = p)"

fun contains :: "string \<Rightarrow> string \<Rightarrow> bool" where
  "contains [] p = (p = [])"
| "contains (c # cs) p = (startswith (c # cs) p \<or> contains cs p)"


section \<open>OutputValidator: \<open>extract_json_from_output\<close> and \<open>is_valid_json_output\<close>\<close>

text \<open>
  \<open>span_to_last cl s\<close> is the prefix of \<open>s\<close> that ends at the last occurrence of
  \<open>cl\<close> (empty when there is none): what the greedy \<open>.*\<close> followed by the literal
  \<open>cl\<close> consumes under \<open>re.DOTALL\<close>, after backtracking from the end of the text.
\<close>

definition span_to_last :: "char \<Rightarrow> string \<Rightarrow> string" where
  "span_to_last cl s = rev (dropWhile (\<lambda>c. c \<noteq> cl) (rev s))"

text \<open>
  \<open>re.findall\<close> for the patterns \<open>\{.*\}\<close> and \<open>\[.*\]\<close> with \<open>re.DOTALL\<close>: the
  text is scanned from the left; a match starts at an opening character that has a
  closing character somewhere after it and runs to the last closing character; the
  scan resumes behind the match (\<open>skip\<close> counts the characters still covered by it).
\<close>

fun findall_span :: "char \<Rightarrow> char \<Rightarrow> nat \<Rightarrow> string \<Rightarrow> string list" where
  "findall_span opn cl skip [] = []"
| "findall_span opn cl skip (c # cs) =
     (if 0 < skip then findall_span opn cl (skip - 1) cs
      else if c = opn \<and> cl \<in> set cs
        then (let m = c # span_to_last cl cs
              in m # findall_span opn cl (length m - 1) cs)
        else findall_span opn cl 0 cs)"

text \<open>\<open>max(m # ms, key=len)\<close>: the first element of maximal length.\<close>

fun max_by_len :: "string \<Rightarrow> string list \<Rightarrow> string" where
  "max_by_len best [] = best"
| "max_by_len best (x # xs) =
     max_by_len (if length best < length x then x else best) xs"

definition extract_json_from_output :: "string \<Rightarrow> string" where
  "extract_json_from_output output0 =
     (let output = strip output0 in
      case findall_span (CHR ''{'') (CHR ''}'') 0 output of
        m # ms \<Rightarrow> max_by_len m ms
      | [] \<Rightarrow>
         (case findall_span (CHR ''['') (CHR '']'') 0 output of
            m # ms \<Rightarrow> max_by_len m ms
          | [] \<Rightarrow> output))"

definition is_valid_json_output :: "string \<Rightarrow> bool" where
  "is_valid_json_output output0 =
     (let output = strip output0 in
        (startswith output ''{'' \<and> endswith output ''}'')
      \<or> (startswith output ''['' \<and> endswith output '']''))"


section \<open>AccessSanitizer: the path allow-list pass of \<open>aianalyst\<close>\<close>

text \<open>
  \<open>s.find(sub)\<close>: the index of the first occurrence of \<open>sub\<close> in \<open>s\<close>, or \<open>-1\<close>.
\<close>

fun find_from :: "string \<Rightarrow> string \<Rightarrow> nat \<Rightarrow> int" where
  "find_from [] sub i = (if sub = [] then int i else - 1)"
| "find_from (c # cs) sub i =
     (if startswith (c # cs) sub then int i else find_from cs sub (i + 1))"

definition str_find :: "string \<Rightarrow> string \<Rightarrow> int" where
  "str_find s sub = find_from s sub 0"

text \<open>\<open>os.path.basename\<close> (POSIX): the part behind the last slash.\<close>

definition basename :: "string \<Rightarrow> string" where
  "basename p = rev (takeWhile (\<lambda>c. c \<noteq> CHR ''/'') (rev p))"

definition is_quote :: "char \<Rightarrow> bool" where
  "is_quote c = (c = CHR 0x27 \<or> c = CHR 0x22)"

text \<open>
  A match object of \<open>re.finditer\<close>: \<open>m.start()\<close>, \<open>m.group(0)\<close> and \<open>m.group(1)\<close>.
\<close>

record rmatch =
  m_start :: nat
  group0 :: string
  group1 :: string

text \<open>
  Each of the five patterns is a literal call prefix followed by
  \<open>[\'\"]([^\'\"]+)[\'\"]\<close>: a quote, a non-empty run of characters that are not
  quotes (newlines included), and a quote, which need not be the same kind as the
  opening one.  The run is maximal, since the character behind it must be a quote.
  \<open>match_call prefix s\<close> matches the pattern at the start of \<open>s\<close> and returns
  \<open>(group(0), group(1))\<close>.
\<close>

definition match_call :: "string \<Rightarrow> string \<Rightarrow> (string \<times> string) option" where
  "match_call prefix s =
     (if startswith s prefix then
        (case drop (length prefix) s of
           [] \<Rightarrow> None
         | q # rest \<Rightarrow>
             if is_quote q then
               (let path = takeWhile (\<lambda>c. \<not> is_quote c) rest in
                case drop (length path) rest of
                  [] \<Rightarrow> None
                | q2 # _ \<Rightarrow>
                    if path \<noteq> [] then Some (prefix @ [q] @ path @ [q2], path)
                    else None)
             else None)
      else None)"

text \<open>
  \<open>re.finditer\<close>: leftmost matches, not overlapping; \<open>pos\<close> is the index of the
  current character and \<open>skip\<close> the number of characters still covered by the
  previous match.
\<close>

fun finditer_from :: "string \<Rightarrow> nat \<Rightarrow> nat \<Rightarrow> string \<Rightarrow> rmatch list" where
  "finditer_from prefix pos skip [] = []"
| "finditer_from prefix pos skip (c # cs) =
     (if 0 < skip then finditer_from prefix (pos + 1) (skip - 1) cs
      else case match_call prefix (c # cs) of
        Some (g0, g1) \<Rightarrow>
          \<lparr>m_start = pos, group0 = g0, group1 = g1\<rparr>
            # finditer_from prefix (pos + 1) (length g0 - 1) cs
      | None \<Rightarrow> finditer_from prefix (pos + 1) 0 cs)"

definition finditer :: "string \<Rightarrow> string \<Rightarrow> rmatch list" where
  "finditer prefix s = finditer_from prefix 0 0 s"

text \<open>
  \<open>_code.rfind('\n', 0, start) + 1\<close> and \<open>_code.find('\n', start)\<close>, the latter
  replaced by \<open>len(_code)\<close> when it is \<open>-1\<close>.
\<close>

definition line_start_of :: "string \<Rightarrow> nat \<Rightarrow> nat" where
  "line_start_of code start = length (span_to_last (CHR 0x0A) (take start code))"

definition line_end_of :: "string \<Rightarrow> nat \<Rightarrow> nat" where
  "line_end_of code start =
     (if start \<le> length code
      then start + length (takeWhile (\<lambda>c. c \<noteq> CHR 0x0A) (drop start code))
      else length code)"

text \<open>\<open>_code[line_start:line_end]\<close> for the line located from \<open>m.start()\<close>.\<close>

definition offending_line :: "string \<Rightarrow> rmatch \<Rightarrow> string" where
  "offending_line code m =
     (let line_start = line_start_of code (m_start m);
          line_end = line_end_of code (m_start m)
      in take (line_end - line_start) (drop line_start code))"

text \<open>
  The test \<open>eq_pos != -1 and eq_pos < patt_pos\<close>: an equals sign occurs in the line
  before the first occurrence of the matched text.
\<close>

definition is_assignment :: "string \<Rightarrow> rmatch \<Rightarrow> bool" where
  "is_assignment code m =
     (let eq_pos = str_find (offending_line code m) ''='';
          patt_pos = str_find (offending_line code m) (group0 m)
      in eq_pos \<noteq> - 1 \<and> eq_pos < patt_pos)"

text \<open>
  \<open>re.sub(r"(['\"])(%s)\1" % re.escape(path), r"\1\1", line, count=1)\<close>: the first
  occurrence of the path between two equal quotes is replaced by the two quotes.
\<close>

fun blank_first_quoted :: "string \<Rightarrow> string \<Rightarrow> string" where
  "blank_first_quoted path [] = []"
| "blank_first_quoted path (c # cs) =
     (if is_quote c \<and> startswith cs (path @ [c])
      then c # c # drop (length path + 1) cs
      else c # blank_first_quoted path cs)"

definition leading_ws :: "string \<Rightarrow> nat" where
  "leading_ws line = length line - length (lstrip line)"

text \<open>
  The body of the inner loop for one match \<open>m\<close> of a pattern of type \<open>ptype\<close>, on
  the current text \<open>code\<close>.  The match was computed on the text as it was when the
  loop over this pattern began; its start offset is used on the current text.
\<close>

definition sanitize_match :: "string list \<Rightarrow> string \<Rightarrow> string \<Rightarrow> rmatch \<Rightarrow> string" where
  "sanitize_match allowed_paths ptype code m =
     (let path = group1 m in
      if path \<notin> set allowed_paths \<and> basename path \<notin> set allowed_paths then
        (let line_start = line_start_of code (m_start m);
             line_end = line_end_of code (m_start m);
             line = offending_line code m
         in if is_assignment code m then
              (let eq_pos = str_find line ''='';
                   var_name = take (nat (eq_pos + 1)) line;
                   replacement = replicate (leading_ws line) (CHR '' '')
                                   @ var_name @ [CHR '' '', CHR 0x27, CHR 0x27]
               in take line_start code @ replacement @ drop line_end code)
            else if ptype = ''parquet'' then code
            else
              (let new_line = blank_first_quoted path line;
                   replacement = replicate (leading_ws line) (CHR '' '')
                                   @ lstrip new_line
               in take line_start code @ replacement @ drop line_end code))
      else code)"

text \<open>The pattern table: the literal call prefix of each regex and its type.\<close>

definition patterns :: "(string \<times> string) list" where
  "patterns =
     [(''pd.read_csv('', ''csv''),
      (''pd.read_parquet('', ''parquet''),
      (''read_csv_auto('', ''csv''),
      (''read_parquet('', ''parquet''),
      (''open('', ''open'')]"

text \<open>
  The inner loop \<open>for m in re.finditer(patt, _code)\<close>: the iterator runs over the
  text bound to \<open>_code\<close> when the loop starts, while the body rebinds \<open>_code\<close>.
\<close>

definition sanitize_pattern :: "string list \<Rightarrow> string \<Rightarrow> string \<times> string \<Rightarrow> string" where
  "sanitize_pattern allowed_paths code pt =
     foldl (sanitize_match allowed_paths (snd pt)) code (finditer (fst pt) code)"

text \<open>The whole pass: the text bound to \<open>_code\<close> when the outer loop has ended.\<close>

definition sanitize :: "string list \<Rightarrow> string \<Rightarrow> string" where
  "sanitize allowed_paths code = foldl (sanitize_pattern allowed_paths) code patterns"

text \<open>
  The literal paths of all CSV-read and generic-open calls of a text: the matches of
  the patterns of type \<open>csv\<close> and \<open>open\<close>.
\<close>

definition csv_open_paths :: "string \<Rightarrow> string list" where
  "csv_open_paths code =
     concat (map (\<lambda>pt. map group1 (finditer (fst pt) code))
                 (filter (\<lambda>pt. snd pt \<noteq> ''parquet'') patterns))"

definition path_allowed :: "string list \<Rightarrow> string \<Rightarrow> bool" where
  "path_allowed allowed_paths path =
     (path \<in> set allowed_paths \<or> basename path \<in> set allowed_paths)"

text \<open>
  The pass together with the flag \<open>_modified\<close>, which is set at every match whose
  path is outside the allow-list, whether or not the text then changes; the matches
  of a pattern are those of the text at the start of its loop.
\<close>

definition sanitize_pass ::
  "string list \<Rightarrow> string \<times> bool \<Rightarrow> string \<times> string \<Rightarrow> string \<times> bool" where
  "sanitize_pass allowed_paths cm pt =
     (sanitize_pattern allowed_paths (fst cm) pt,
      snd cm \<or> list_ex (\<lambda>m. \<not> path_allowed allowed_paths (group1 m))
                         (finditer (fst pt) (fst cm)))"

definition sanitize_with_flag :: "string list \<Rightarrow> string \<Rightarrow> string \<times> bool" where
  "sanitize_with_flag allowed_paths code =
     foldl (sanitize_pass allowed_paths) (code, False) patterns"


section \<open>JSON values and Python dictionaries\<close>

text \<open>
  The values of \<open>json.loads\<close> and of the dictionaries the program builds.  \<open>'f\<close> is
  the type of Python floats, which the model leaves uninterpreted.  A dictionary is
  an association list read with \<open>map_of\<close>.
\<close>

datatype 'f json =
    JNull
  | JBool bool
  | JInt int
  | JFloat 'f
  | JStr string
  | JArr "'f json list"
  | JObj "(string \<times> 'f json) list"


section \<open>SourceDiscoverer: the regex fallback \<open>extract_urls_with_regex\<close>\<close>

text \<open>
  \<open>str.lower\<close> on code points below 256: the ASCII capitals and the Latin-1 capitals
  \<open>0xC0\<close> to \<open>0xDE\<close> without the multiplication sign \<open>0xD7\<close> move up by 32.
\<close>

definition lower_char :: "char \<Rightarrow> char" where
  "lower_char c =
     (let n = (of_char c :: nat) in
      if (65 \<le> n \<and> n \<le> 90) \<or> (192 \<le> n \<and> n \<le> 222 \<and> n \<noteq> 215)
      then char_of (n + 32) else c)"

definition lower :: "string \<Rightarrow> string" where
  "lower s = map lower_char s"

text \<open>\<open>any(p in s for p in ps)\<close>.\<close>

definition any_in :: "string list \<Rightarrow> string \<Rightarrow> bool" where
  "any_in ps s = list_ex (\<lambda>p. contains s p) ps"

text \<open>
  The character class \<open>[^\s\'"<>]\<close> and a match of \<open>scheme[^\s\'"<>]+\<close> at the
  start of a text.  For \<open>https?://\<close> the optional \<open>s\<close> is tried first.
\<close>

definition is_url_char :: "char \<Rightarrow> bool" where
  "is_url_char c =
     (\<not> is_space c \<and> c \<noteq> CHR 0x27 \<and> c \<noteq> CHR 0x22 \<and> c \<noteq> CHR ''<'' \<and> c \<noteq> CHR ''>'')"

definition match_scheme_url :: "string \<Rightarrow> string \<Rightarrow> string option" where
  "match_scheme_url scheme s =
     (if startswith s scheme then
        (let body = takeWhile is_url_char (drop (length scheme) s)
         in if body \<noteq> [] then Some (scheme @ body) else None)
      else None)"

definition match_http_url :: "string \<Rightarrow> string option" where
  "match_http_url s =
     (case match_scheme_url ''https://'' s of
        Some u \<Rightarrow> Some u
      | None \<Rightarrow> match_scheme_url ''http://'' s)"

definition match_s3_url :: "string \<Rightarrow> string option" where
  "match_s3_url s = match_scheme_url ''s3://'' s"

text \<open>
  \<open>re.findall\<close> for a pattern without groups, given the function that matches the
  pattern at the start of a text: leftmost matches, not overlapping.
\<close>

fun findall_with :: "(string \<Rightarrow> string option) \<Rightarrow> nat \<Rightarrow> string \<Rightarrow> string list" where
  "findall_with mt skip [] = []"
| "findall_with mt skip (c # cs) =
     (if 0 < skip then findall_with mt (skip - 1) cs
      else case mt (c # cs) of
        Some u \<Rightarrow> u # findall_with mt (length u - 1) cs
      | None \<Rightarrow> findall_with mt 0 cs)"

text \<open>\<open>re.sub(r'[.,;)]+$', '', url)\<close>: the trailing run of these four characters is cut.\<close>

definition clean_trailing :: "string \<Rightarrow> string" where
  "clean_trailing u = rev (dropWhile (\<lambda>c. c \<in> set ''.,;)'') (rev u))"

definition skip_patterns :: "string list" where
  "skip_patterns =
     [''example.com'', ''documentation'', ''github.com'', ''docs.'', ''help.'',
      ''/docs/'', ''/help/'', ''/guide/'', ''/tutorial/'']"

definition db_entry :: "string \<Rightarrow> string \<Rightarrow> string \<Rightarrow> 'f json" where
  "db_entry u format_type description =
     JObj [(''url'', JStr u), (''format'', JStr format_type),
           (''description'', JStr description)]"

record 'f sources =
  scrape_urls :: "string list"
  database_files :: "'f json list"
  has_data_sources :: bool

text \<open>
  The body of the loop over the HTTP(S) matches; the state is the pair of the lists
  \<open>scrape_urls\<close> and \<open>database_files\<close>.
\<close>

definition http_url_step ::
  "string list \<times> 'f json list \<Rightarrow> string \<Rightarrow> string list \<times> 'f json list" where
  "http_url_step acc u =
     (let clean_url = clean_trailing u in
      if any_in skip_patterns (lower clean_url) then acc
      else if any_in [''.parquet'', ''.csv'', ''.json''] (lower clean_url) then
        (let format_type =
               (if contains clean_url ''.parquet'' then ''parquet''
                else if contains clean_url ''.csv'' then ''csv'' else ''json'')
         in (fst acc,
             snd acc @ [db_entry clean_url format_type
                          (''Database file ('' @ format_type @ '')'')]))
      else if \<not> any_in [''ecourts.gov.in''] (lower clean_url)
        then (fst acc @ [clean_url], snd acc)
        else acc)"

text \<open>
  The body of the loop over the S3 matches.  \<open>s3_url.split()[0]\<close> is the first
  whitespace-separated token; a match is not empty and holds no whitespace, so the
  index is always in range.
\<close>

definition s3_url_step ::
  "string list \<times> 'f json list \<Rightarrow> string \<Rightarrow> string list \<times> 'f json list" where
  "s3_url_step acc s3_url =
     (if any_in [''xyz'', ''example'', ''***'', ''EXAMPLE''] s3_url then acc
      else
        (let clean_s3 = takeWhile (\<lambda>c. \<not> is_space c) (lstrip s3_url)
         in (fst acc, snd acc @ [db_entry clean_s3 ''parquet'' ''S3 parquet file''])))"

definition extract_urls_with_regex :: "string \<Rightarrow> 'f sources" where
  "extract_urls_with_regex question_text =
     (let urls = findall_with match_http_url 0 question_text;
          acc1 = foldl http_url_step ([], []) urls;
          s3_urls = findall_with match_s3_url 0 question_text;
          acc2 = foldl s3_url_step acc1 s3_urls
      in \<lparr>scrape_urls = fst acc2,
          database_files = snd acc2,
          has_data_sources = (0 < length (fst acc2) \<or> 0 < length (snd acc2))\<rparr>)"


section \<open>Exceptions\<close>

text \<open>
  The exceptions of class \<open>Exception\<close> that the modelled code raises itself or
  receives from a collaborator.  \<open>OtherError\<close> stands for any other exception of
  that class.
\<close>

datatype exn =
    KeyError string
  | IndexError
  | TypeError
  | AttributeError
  | ValueError string
  | JSONDecodeError
  | TimeoutExpired
  | OtherError string


section \<open>\<open>scrape_all_urls\<close>\<close>

text \<open>\<open>str(n)\<close> for a natural number: its decimal digits.\<close>

fun str_nat :: "nat \<Rightarrow> string" where
  "str_nat n =
     (if n < 10 then [char_of (48 + n)]
      else str_nat (n div 10) @ [char_of (48 + n mod 10)])"

declare str_nat.simps [simp del]

text \<open>\<open>f"data{i+1}.csv" if i > 0 else "data.csv"\<close>.\<close>

definition filename_for :: "nat \<Rightarrow> string" where
  "filename_for i = (if 0 < i then ''data'' @ str_nat (i + 1) @ ''.csv'' else ''data.csv'')"

text \<open>
  The scraping collaborator and the data frame library are not part of the
  repository; they are parameters.  \<open>extract_data i url\<close> is the data frame that
  \<open>sourcer.extract_data(source_config)["dataframe"]\<close> yields for the URL at position
  \<open>i\<close>, or the exception raised on the way; \<open>df_empty\<close> is \<open>df.empty\<close>;
  \<open>to_csv df filename\<close> writes the file or raises; \<open>df_info\<close> stands for the
  shape, the columns and the three sample rows read off the frame, or the exception
  raised while reading them.
\<close>

record ('df, 'info) scrape_env =
  extract_data :: "nat \<Rightarrow> string \<Rightarrow> exn + 'df"
  df_empty :: "'df \<Rightarrow> bool"
  to_csv :: "'df \<Rightarrow> string \<Rightarrow> exn + unit"
  df_info :: "'df \<Rightarrow> exn + 'info"

record 'info scraped_entry =
  filename :: string
  source_url :: string
  info :: 'info
  description :: string

text \<open>
  The state of the loop: the list \<open>scraped_data\<close> and the names of the files
  written so far, in the order of writing.
\<close>

record 'info scrape_state =
  scraped_data :: "'info scraped_entry list"
  saved_files :: "string list"

text \<open>
  The loop body for the pair \<open>(i, url)\<close> of \<open>enumerate(urls)\<close>.  Every exception
  is caught by the \<open>except Exception\<close> of the body and ends this iteration only.
\<close>

definition scrape_step ::
  "('df, 'info) scrape_env \<Rightarrow> 'info scrape_state \<Rightarrow> nat \<times> string \<Rightarrow> 'info scrape_state" where
  "scrape_step env st iu =
     (case extract_data env (fst iu) (snd iu) of
        Inl e \<Rightarrow> st
      | Inr df \<Rightarrow>
          if \<not> df_empty env df then
            (let fname = filename_for (fst iu) in
             case to_csv env df fname of
               Inl e \<Rightarrow> st
             | Inr u \<Rightarrow>
                 (case df_info env df of
                    Inl e \<Rightarrow> st\<lparr>saved_files := saved_files st @ [fname]\<rparr>
                  | Inr summary \<Rightarrow>
                      \<lparr>scraped_data = scraped_data st @
                          [\<lparr>filename = fname, source_url = snd iu, info = summary,
                            description = ''Scraped data from '' @ snd iu\<rparr>],
                       saved_files = saved_files st @ [fname]\<rparr>))
          else st)"

definition scrape_all_urls ::
  "('df, 'info) scrape_env \<Rightarrow> string list \<Rightarrow> 'info scrape_state" where
  "scrape_all_urls env urls =
     foldl (scrape_step env) \<lparr>scraped_data = [], saved_files = []\<rparr> (enumerate 0 urls)"

text \<open>Whether a call returned, rather than raised.\<close>

definition returned :: "exn + 'a \<Rightarrow> bool" where
  "returned r = (case r of Inl e \<Rightarrow> False | Inr v \<Rightarrow> True)"

text \<open>
  Whether the iteration for \<open>(i, url)\<close> writes its file, and whether it also
  appends its entry.
\<close>

definition saves :: "('df, 'info) scrape_env \<Rightarrow> nat \<times> string \<Rightarrow> bool" where
  "saves env iu =
     (case extract_data env (fst iu) (snd iu) of
        Inl e \<Rightarrow> False
      | Inr df \<Rightarrow> \<not> df_empty env df \<and> returned (to_csv env df (filename_for (fst iu))))"

definition records :: "('df, 'info) scrape_env \<Rightarrow> nat \<times> string \<Rightarrow> bool" where
  "records env iu =
     (case extract_data env (fst iu) (snd iu) of
        Inl e \<Rightarrow> False
      | Inr df \<Rightarrow> \<not> df_empty env df \<and> returned (to_csv env df (filename_for (fst iu)))
                   \<and> returned (df_info env df))"


section \<open>SchemaProbe: \<open>get_database_schemas\<close>\<close>

text \<open>
  The analytic engine is a parameter.  \<open>connect\<close> is \<open>duckdb.connect()\<close>;
  \<open>load_extensions\<close> is the pair of \<open>INSTALL ...; LOAD ...\<close> statements.
  \<open>describe i q\<close> is the result of \<open>conn.execute(q).fetchdf()\<close> for the schema
  query \<open>q\<close> of the item at position \<open>i\<close>, read as its rows of \<open>column_name\<close> and
  \<open>column_type\<close>; \<open>sample i q\<close> is the result for the sample query, read with
  \<open>to_dict('records')\<close>; both may raise instead.
  \<open>float_truthy\<close> and \<open>py_str\<close> are Python's \<open>bool\<close> on floats and \<open>str\<close> on
  values other than strings.
\<close>

record ('f, 'rows) probe_env =
  connect :: "exn + unit"
  load_extensions :: "exn + unit"
  describe :: "nat \<Rightarrow> string \<Rightarrow> exn + (string \<times> string) list"
  sample :: "nat \<Rightarrow> string \<Rightarrow> exn + 'rows"
  float_truthy :: "'f \<Rightarrow> bool"
  py_str :: "'f json \<Rightarrow> string"

text \<open>\<open>d[k]\<close>, \<open>d.get(k)\<close>, \<open>bool(v)\<close>, \<open>lit in v\<close>, \<open>v.endswith(lit)\<close> and \<open>f"{v}"\<close>.\<close>

definition subscript :: "'f json \<Rightarrow> string \<Rightarrow> exn + 'f json" where
  "subscript d k =
     (case d of
        JObj kvs \<Rightarrow> (case map_of kvs k of None \<Rightarrow> Inl (KeyError k) | Some v \<Rightarrow> Inr v)
      | _ \<Rightarrow> Inl TypeError)"

definition dict_get :: "'f json \<Rightarrow> string \<Rightarrow> exn + 'f json option" where
  "dict_get d k = (case d of JObj kvs \<Rightarrow> Inr (map_of kvs k) | _ \<Rightarrow> Inl AttributeError)"

definition truthy :: "('f \<Rightarrow> bool) \<Rightarrow> 'f json \<Rightarrow> bool" where
  "truthy ft v =
     (case v of
        JNull \<Rightarrow> False
      | JBool b \<Rightarrow> b
      | JInt n \<Rightarrow> n \<noteq> 0
      | JFloat x \<Rightarrow> ft x
      | JStr s \<Rightarrow> s \<noteq> []
      | JArr xs \<Rightarrow> xs \<noteq> []
      | JObj kvs \<Rightarrow> kvs \<noteq> [])"

definition py_in :: "string \<Rightarrow> 'f json \<Rightarrow> exn + bool" where
  "py_in lit v =
     (case v of
        JStr s \<Rightarrow> Inr (contains s lit)
      | JArr xs \<Rightarrow> Inr (JStr lit \<in> set xs)
      | JObj kvs \<Rightarrow> Inr (map_of kvs lit \<noteq> None)
      | _ \<Rightarrow> Inl TypeError)"

definition py_endswith :: "'f json \<Rightarrow> string \<Rightarrow> exn + bool" where
  "py_endswith v lit = (case v of JStr s \<Rightarrow> Inr (endswith s lit) | _ \<Rightarrow> Inl AttributeError)"

definition fmt :: "('f json \<Rightarrow> string) \<Rightarrow> 'f json \<Rightarrow> string" where
  "fmt to_str v = (case v of JStr s \<Rightarrow> s | _ \<Rightarrow> to_str v)"

text \<open>\<open>a or b\<close> on two tests that may raise; \<open>b\<close> is evaluated only when \<open>a\<close> is false.\<close>

definition or_else :: "exn + bool \<Rightarrow> exn + bool \<Rightarrow> exn + bool" where
  "or_else a b = (case a of Inl e \<Rightarrow> Inl e | Inr True \<Rightarrow> Inr True | Inr False \<Rightarrow> b)"

text \<open>
  The format dispatch: the name of the engine's reader, \<open>None\<close> for an unsupported
  format.  In the CSV branch \<open>os.path.exists(url)\<close> is called first, which raises
  \<open>TypeError\<close> on a list or a dictionary; its two branches issue the same queries.
\<close>

definition choose_reader :: "'f json \<Rightarrow> 'f json \<Rightarrow> exn + string option" where
  "choose_reader format_type url =
     (case or_else (py_in ''csv'' format_type) (py_endswith url ''.csv'') of
        Inl e \<Rightarrow> Inl e
      | Inr True \<Rightarrow>
          (case url of
             JArr xs \<Rightarrow> Inl TypeError
           | JObj kvs \<Rightarrow> Inl TypeError
           | _ \<Rightarrow> Inr (Some ''read_csv_auto''))
      | Inr False \<Rightarrow>
          (case or_else (py_in ''parquet'' format_type) (py_endswith url ''.parquet'') of
             Inl e \<Rightarrow> Inl e
           | Inr True \<Rightarrow> Inr (Some ''read_parquet'')
           | Inr False \<Rightarrow>
               (case or_else (py_in ''json'' format_type) (py_endswith url ''.json'') of
                  Inl e \<Rightarrow> Inl e
                | Inr True \<Rightarrow> Inr (Some ''read_json_auto'')
                | Inr False \<Rightarrow> Inr None)))"

definition schema_query :: "string \<Rightarrow> string \<Rightarrow> string" where
  "schema_query reader u =
     ''DESCRIBE SELECT * FROM '' @ reader @ ''('' @ [CHR 0x27] @ u @ [CHR 0x27] @ '') LIMIT 0''"

definition sample_query :: "string \<Rightarrow> string \<Rightarrow> string" where
  "sample_query reader u =
     ''SELECT * FROM '' @ reader @ ''('' @ [CHR 0x27] @ u @ [CHR 0x27] @ '') LIMIT 5''"

text \<open>\<open>dict(zip(ks, vs))\<close>: a later value for a key replaces the earlier one in place.\<close>

fun dict_set :: "(string \<times> 'v) list \<Rightarrow> string \<Rightarrow> 'v \<Rightarrow> (string \<times> 'v) list" where
  "dict_set [] k v = [(k, v)]"
| "dict_set ((k', v') # d) k v =
     (if k' = k then (k, v) # d else (k', v') # dict_set d k v)"

definition dict_of_pairs :: "(string \<times> 'v) list \<Rightarrow> (string \<times> 'v) list" where
  "dict_of_pairs kvs = foldl (\<lambda>d kv. dict_set d (fst kv) (snd kv)) [] kvs"

record ('f, 'rows) database_info =
  db_filename :: string
  db_source_url :: "'f json"
  db_format :: "'f json"
  schema_columns :: "string list"
  schema_column_types :: "(string \<times> string) list"
  db_sample_data :: 'rows
  db_description :: "'f json"
  total_columns :: nat

text \<open>
  The body of the \<open>try\<close> for the pair \<open>(i, db_file)\<close>: \<open>Inl e\<close> when it raises
  \<open>e\<close>, \<open>Inr None\<close> when it ends with \<open>continue\<close>, \<open>Inr (Some entry)\<close> when it
  reaches \<open>database_info.append(entry)\<close>.  The field \<open>access_query\<close> of the entry
  is always \<open>None\<close> and is left out.
\<close>

definition probe_item ::
  "('f, 'rows) probe_env \<Rightarrow> nat \<Rightarrow> 'f json \<Rightarrow> exn + ('f, 'rows) database_info option" where
  "probe_item env i db_file =
     (case subscript db_file ''url'' of
        Inl e \<Rightarrow> Inl e
      | Inr url \<Rightarrow>
     (case subscript db_file ''format'' of
        Inl e \<Rightarrow> Inl e
      | Inr format_type \<Rightarrow>
     (case or_else (Inr (\<not> truthy (float_truthy env) url))
                   (py_in ''s3://indian-high-court-judgments'' url) of
        Inl e \<Rightarrow> Inl e
      | Inr True \<Rightarrow> Inr None
      | Inr False \<Rightarrow>
     (case choose_reader format_type url of
        Inl e \<Rightarrow> Inl e
      | Inr None \<Rightarrow> Inr None
      | Inr (Some reader) \<Rightarrow>
     (case describe env i (schema_query reader (fmt (py_str env) url)) of
        Inl e \<Rightarrow> Inl e
      | Inr schema_rows \<Rightarrow>
     (case sample env i (sample_query reader (fmt (py_str env) url)) of
        Inl e \<Rightarrow> Inl e
      | Inr sample_rows \<Rightarrow>
     (case dict_get db_file ''description'' of
        Inl e \<Rightarrow> Inl e
      | Inr d \<Rightarrow>
          Inr (Some
            \<lparr>db_filename = ''database_'' @ str_nat (i + 1),
             db_source_url = url,
             db_format = format_type,
             schema_columns = map fst schema_rows,
             schema_column_types = dict_of_pairs schema_rows,
             db_sample_data = sample_rows,
             db_description =
               (case d of
                  Some v \<Rightarrow> v
                | None \<Rightarrow> JStr (''Database file ('' @ fmt (py_str env) format_type @ '')'')),
             total_columns = length (map fst schema_rows)\<rparr>))))))))"

text \<open>
  The loop over \<open>enumerate(database_files)\<close> (the list is \<open>db_files\<close> in the
  model, where \<open>database_files\<close> names a record field).  An exception of the body is caught;
  the handler prints \<open>db_file.get('url')\<close>, which itself raises when the item is
  not a dictionary, and that exception leaves the function.
\<close>

fun probe_loop ::
  "('f, 'rows) probe_env \<Rightarrow> ('f, 'rows) database_info list \<Rightarrow> (nat \<times> 'f json) list
     \<Rightarrow> exn + ('f, 'rows) database_info list" where
  "probe_loop env database_info [] = Inr database_info"
| "probe_loop env database_info (idb # rest) =
     (case probe_item env (fst idb) (snd idb) of
        Inl e \<Rightarrow>
          (case dict_get (snd idb) ''url'' of
             Inl e' \<Rightarrow> Inl e'
           | Inr u \<Rightarrow> probe_loop env database_info rest)
      | Inr None \<Rightarrow> probe_loop env database_info rest
      | Inr (Some entry) \<Rightarrow> probe_loop env (database_info @ [entry]) rest)"

definition get_database_schemas ::
  "('f, 'rows) probe_env \<Rightarrow> 'f json list \<Rightarrow> exn + ('f, 'rows) database_info list" where
  "get_database_schemas env db_files =
     (case connect env of
        Inl e \<Rightarrow> Inl e
      | Inr c \<Rightarrow>
          (case load_extensions env of
             Inl e \<Rightarrow> probe_loop env [] (enumerate 0 db_files)
           | Inr u \<Rightarrow> probe_loop env [] (enumerate 0 db_files)))"

text \<open>What the iteration for \<open>(i, db_file)\<close> appends, if anything.\<close>

definition probed_entry ::
  "('f, 'rows) probe_env \<Rightarrow> nat \<times> 'f json \<Rightarrow> ('f, 'rows) database_info option" where
  "probed_entry env idb =
     (case probe_item env (fst idb) (snd idb) of
        Inl e \<Rightarrow> None
      | Inr r \<Rightarrow> r)"

definition is_dict :: "'f json \<Rightarrow> bool" where
  "is_dict v = (case v of JObj kvs \<Rightarrow> True | _ \<Rightarrow> False)"


section \<open>CodeSynthesizer, SandboxExecutor and RepairLoop: \<open>aianalyst\<close> from the synthesis response on\<close>

subsection \<open>Resolving the response of the model gateway\<close>

text \<open>\<open>v[0]\<close> on a JSON value.\<close>

definition index0 :: "'f json \<Rightarrow> exn + 'f json" where
  "index0 v =
     (case v of
        JArr xs \<Rightarrow> (case xs of [] \<Rightarrow> Inl IndexError | x # _ \<Rightarrow> Inr x)
      | JStr s \<Rightarrow> (case s of [] \<Rightarrow> Inl IndexError | c # _ \<Rightarrow> Inr (JStr [c]))
      | JObj kvs \<Rightarrow> Inl (KeyError ''0'')
      | _ \<Rightarrow> Inl TypeError)"

datatype path_step = Key string | Index0

fun follow :: "'f json \<Rightarrow> path_step list \<Rightarrow> exn + 'f json" where
  "follow v [] = Inr v"
| "follow v (Key k # ps) =
     (case subscript v k of Inl e \<Rightarrow> Inl e | Inr w \<Rightarrow> follow w ps)"
| "follow v (Index0 # ps) =
     (case index0 v of Inl e \<Rightarrow> Inl e | Inr w \<Rightarrow> follow w ps)"

text \<open>
  The \<open>if "candidates" in r: ... elif "choices" in r: ... else: raise ValueError(...)\<close>
  of both the synthesis and the fix response; \<open>what\<close> is the head of the message.
\<close>

definition response_text :: "string \<Rightarrow> 'f json \<Rightarrow> exn + 'f json" where
  "response_text what response =
     (case py_in ''candidates'' response of
        Inl e \<Rightarrow> Inl e
      | Inr True \<Rightarrow>
          follow response
            [Key ''candidates'', Index0, Key ''content'', Key ''parts'', Index0, Key ''text'']
      | Inr False \<Rightarrow>
          (case py_in ''choices'' response of
             Inl e \<Rightarrow> Inl e
           | Inr True \<Rightarrow>
               follow response [Key ''choices'', Index0, Key ''message'', Key ''content'']
           | Inr False \<Rightarrow> Inl (ValueError what)))"

text \<open>A string method called on a value: \<open>AttributeError\<close> unless it is a string.\<close>

definition as_str :: "'f json \<Rightarrow> exn + string" where
  "as_str v = (case v of JStr s \<Rightarrow> Inr s | _ \<Rightarrow> Inl AttributeError)"

subsection \<open>ModelGateway: \<open>ping_horizon\<close>\<close>

text \<open>
  The HTTP exchange is a parameter: \<open>post t\<close> is what try number \<open>t\<close> yields, the
  decoded body \<open>response.json()\<close> or the exception raised by the request, by
  \<open>raise_for_status\<close> or by the decoding.  The loop returns the first body and,
  after \<open>max_tries\<close> failures, the error dictionary.
\<close>

function ping_loop :: "(nat \<Rightarrow> exn + 'f json) \<Rightarrow> nat \<Rightarrow> nat \<Rightarrow> 'f json" where
  "ping_loop post max_tries tries =
     (if tries < max_tries then
        (case post tries of
           Inr body \<Rightarrow> body
         | Inl e \<Rightarrow> ping_loop post max_tries (tries + 1))
      else JObj [(''error'', JStr ''Gemini failed after max retries'')])"
  by pat_completeness auto
termination
  by (relation "measure (\<lambda>(post, max_tries, tries). max_tries - tries)") auto

declare ping_loop.simps [simp del]

definition ping_horizon :: "(nat \<Rightarrow> exn + 'f json) \<Rightarrow> 'f json" where
  "ping_horizon post = ping_loop post 3 0"

subsection \<open>Cleaning the program text\<close>

text \<open>\<open>s.replace(old, new)\<close> for a non-empty \<open>old\<close>.\<close>

fun replace_from :: "string \<Rightarrow> string \<Rightarrow> nat \<Rightarrow> string \<Rightarrow> string" where
  "replace_from old new skip [] = []"
| "replace_from old new skip (c # cs) =
     (if 0 < skip then replace_from old new (skip - 1) cs
      else if startswith (c # cs) old
        then new @ replace_from old new (length old - 1) cs
        else c # replace_from old new 0 cs)"

definition str_replace :: "string \<Rightarrow> string \<Rightarrow> string \<Rightarrow> string" where
  "str_replace s old new = replace_from old new 0 s"

definition fence :: string where
  "fence = [CHR 0x60, CHR 0x60, CHR 0x60]"

definition strip_fences :: "string \<Rightarrow> string" where
  "strip_fences raw_code =
     (if contains raw_code fence
      then str_replace (str_replace raw_code (fence @ ''python'') '''') fence ''''
      else raw_code)"

text \<open>
  Reading a file in text mode translates the line ends \<open>\r\n\<close> and \<open>\r\<close> to
  \<open>\n\<close>; writing in text mode leaves the text as it is (POSIX).
\<close>

fun universal_newlines :: "string \<Rightarrow> string" where
  "universal_newlines [] = []"
| "universal_newlines [c] = (if c = CHR 0x0D then [CHR 0x0A] else [c])"
| "universal_newlines (c # d # cs) =
     (if c = CHR 0x0D then
        (if d = CHR 0x0A then CHR 0x0A # universal_newlines cs
         else CHR 0x0A # universal_newlines (d # cs))
      else c # universal_newlines (d # cs))"

text \<open>\<open>s.split('\n')\<close> and \<open>'\n'.join(lines)\<close>.\<close>

fun split_lines :: "string \<Rightarrow> string list" where
  "split_lines [] = [[]]"
| "split_lines (c # cs) =
     (if c = CHR 0x0A then [] # split_lines cs
      else (case split_lines cs of
              [] \<Rightarrow> [[c]]
            | l # ls \<Rightarrow> (c # l) # ls))"

fun join_lines :: "string list \<Rightarrow> string" where
  "join_lines [] = []"
| "join_lines [l] = l"
| "join_lines (l # m # ls) = l @ [CHR 0x0A] @ join_lines (m # ls)"

text \<open>The loop that drops the fence lines of a fix response.\<close>

fun clean_lines_loop :: "bool \<Rightarrow> string list \<Rightarrow> string list" where
  "clean_lines_loop in_code_block [] = []"
| "clean_lines_loop in_code_block (line # lines) =
     (if startswith (strip line) fence
      then clean_lines_loop (\<not> in_code_block) lines
      else if in_code_block \<or> (\<not> startswith (strip line) fence \<and> \<not> contains line fence)
        then line # clean_lines_loop in_code_block lines
        else clean_lines_loop in_code_block lines)"

definition clean_fixed_code :: "string \<Rightarrow> string" where
  "clean_fixed_code fixed_code =
     strip (join_lines (clean_lines_loop False (split_lines fixed_code)))"

text \<open>
  \<open>re.sub(r'(savefig\s*\([^)]*?),\s*quality\s*=\s*[^,)]+', r'\1', _code)\<close>.
  \<open>match_quality_arg s\<close> is the length of a match of
  \<open>,\s*quality\s*=\s*[^,)]+\<close> at the start of \<open>s\<close>; \<open>lazy_args\<close> extends the lazy
  \<open>[^)]*?\<close> one character at a time until such a match follows;
  \<open>match_savefig s\<close> gives the length of group 1 and of the whole match.
\<close>

definition match_quality_arg :: "string \<Rightarrow> nat option" where
  "match_quality_arg s =
     (case s of
        [] \<Rightarrow> None
      | c # r \<Rightarrow>
          if c = CHR '','' then
            (let r1 = dropWhile is_space r in
             if startswith r1 ''quality'' then
               (case dropWhile is_space (drop 7 r1) of
                  [] \<Rightarrow> None
                | e # r3 \<Rightarrow>
                    if e = CHR ''='' then
                      (let run = takeWhile (\<lambda>x. x \<noteq> CHR '','' \<and> x \<noteq> CHR '')'') r3
                       in if run \<noteq> [] then Some (length s - length r3 + length run)
                          else None)
                    else None)
             else None)
          else None)"

fun lazy_args :: "string \<Rightarrow> nat \<Rightarrow> (nat \<times> nat) option" where
  "lazy_args [] k = None"
| "lazy_args (c # cs) k =
     (case match_quality_arg (c # cs) of
        Some n \<Rightarrow> Some (k, n)
      | None \<Rightarrow> if c \<noteq> CHR '')'' then lazy_args cs (k + 1) else None)"

definition match_savefig :: "string \<Rightarrow> (nat \<times> nat) option" where
  "match_savefig s =
     (if startswith s ''savefig'' then
        (case dropWhile is_space (drop 7 s) of
           [] \<Rightarrow> None
         | p # r \<Rightarrow>
             if p = CHR ''('' then
               (case lazy_args r 0 of
                  None \<Rightarrow> None
                | Some kn \<Rightarrow>
                    (let keep = length s - length r + fst kn
                     in Some (keep, keep + snd kn)))
             else None)
      else None)"

fun sub_quality :: "nat \<Rightarrow> string \<Rightarrow> string" where
  "sub_quality skip [] = []"
| "sub_quality skip (c # cs) =
     (if 0 < skip then sub_quality (skip - 1) cs
      else case match_savefig (c # cs) of
        Some kt \<Rightarrow> take (fst kt) (c # cs) @ sub_quality (snd kt - 1) cs
      | None \<Rightarrow> c # sub_quality 0 cs)"

definition strip_quality :: "string \<Rightarrow> string" where
  "strip_quality code = sub_quality 0 code"

subsection \<open>The state and the collaborators\<close>

text \<open>
  The state is the content of \<open>chatgpt_code.py\<close> and the record of the effects so
  far: writes of that file, the sanitizer pass, runs of the program (by stage and
  position in the stage), dependency installs, starts of fix attempts and fix
  requests to the model gateway.  A text that was written is read back as it was
  written, up to the translation of line ends: the encoding of the locale, used by
  the first write, is taken to agree with UTF-8, used by every read.  The writes
  with the encoding UTF-8, which are all inside a \<open>try\<close>, are taken to succeed:
  every text of the model can be encoded.
\<close>

datatype event =
    Wrote string
  | Sanitized
  | Executed nat nat
  | PipInstall string
  | FixAttempt nat
  | FixRequest nat

record pstate =
  code_file :: string
  events :: "event list"

definition add_event :: "event \<Rightarrow> pstate \<Rightarrow> pstate" where
  "add_event e st = st\<lparr>events := events st @ [e]\<rparr>"

definition write_code :: "string \<Rightarrow> pstate \<Rightarrow> pstate" where
  "write_code c st = \<lparr>code_file = c, events = events st @ [Wrote c]\<rparr>"

text \<open>
  What \<open>subprocess.run(["python", "chatgpt_code.py"], ..., timeout=120)\<close> does:
  it completes with a return code, stdout and stderr, or raises \<open>TimeoutExpired\<close>,
  or raises another exception.
\<close>

datatype run_outcome = Completed int string string | RunTimeout | RunError

text \<open>
  What the first write of the program file does, with the encoding of the locale and
  outside any \<open>try\<close>: it writes the text; or \<open>open\<close> raises and the file is
  untouched; or the text cannot be encoded, \<open>write\<close> raises and the file, truncated
  by \<open>open\<close>, is left empty.
\<close>

datatype write_outcome = Written | NotOpened exn | NotEncoded exn

text \<open>
  The collaborators are parameters, indexed by the place of the call: the stage
  (0 for the initial attempt, \<open>n\<close> for fix attempt \<open>n\<close>) and the position in the
  stage.  \<open>write_program\<close> is the first write of the program file;
  \<open>exec\<close> runs the given program text; \<open>pip_install\<close> is the
  \<open>pip install\<close> of a module, which returns or raises; \<open>post_synthesis\<close> is the
  HTTP exchange of the synthesis request and \<open>post_fix n\<close> that of the fix
  request of attempt \<open>n\<close> (the fix prompt is a constant text); \<open>loads\<close> is
  \<open>json.loads\<close>; \<open>time_start\<close> and \<open>time_end\<close> are the two readings of
  \<open>time.time()\<close> and \<open>float_sub\<close> is float subtraction.
\<close>

record 'f pipeline_env =
  write_program :: "string \<Rightarrow> write_outcome"
  exec :: "nat \<Rightarrow> nat \<Rightarrow> string \<Rightarrow> run_outcome"
  pip_install :: "nat \<Rightarrow> nat \<Rightarrow> string \<Rightarrow> exn + unit"
  post_synthesis :: "nat \<Rightarrow> exn + 'f json"
  post_fix :: "nat \<Rightarrow> nat \<Rightarrow> exn + 'f json"
  loads :: "string \<Rightarrow> exn + 'f json"
  time_start :: 'f
  time_end :: 'f
  float_sub :: "'f \<Rightarrow> 'f \<Rightarrow> 'f"

subsection \<open>SandboxExecutor\<close>

text \<open>
  \<open>re.search(r"No module named '([^']+)'", stderr)\<close>: group 1 of the first match.
\<close>

definition match_missing :: "string \<Rightarrow> string option" where
  "match_missing s =
     (if startswith s (''No module named '' @ [CHR 0x27]) then
        (let rest = drop 17 s;
             name = takeWhile (\<lambda>c. c \<noteq> CHR 0x27) rest
         in if name \<noteq> [] \<and> drop (length name) rest \<noteq> [] then Some name else None)
      else None)"

fun search_missing :: "string \<Rightarrow> string option" where
  "search_missing [] = None"
| "search_missing (c # cs) =
     (case match_missing (c # cs) of
        Some m \<Rightarrow> Some m
      | None \<Rightarrow> search_missing cs)"

text \<open>
  One run with the dependency self-heal, at stage \<open>a\<close> and position \<open>k\<close>: the
  first \<open>subprocess.run\<close> may raise; the install and the second run are inside a
  \<open>try\<close> whose \<open>except Exception\<close> keeps the first result.
\<close>

definition run_script ::
  "'f pipeline_env \<Rightarrow> nat \<Rightarrow> nat \<Rightarrow> pstate \<Rightarrow> (exn + int \<times> string \<times> string) \<times> pstate" where
  "run_script env a k st =
     (let st1 = add_event (Executed a k) st in
      case exec env a k (code_file st) of
        RunTimeout \<Rightarrow> (Inl TimeoutExpired, st1)
      | RunError \<Rightarrow> (Inl (OtherError ''subprocess''), st1)
      | Completed rc out err \<Rightarrow>
          if rc \<noteq> 0 then
            (case search_missing err of
               None \<Rightarrow> (Inr (rc, out, err), st1)
             | Some missing_module \<Rightarrow>
                 (let st2 = add_event (PipInstall missing_module) st1 in
                  case pip_install env a k missing_module of
                    Inl e \<Rightarrow> (Inr (rc, out, err), st2)
                  | Inr u \<Rightarrow>
                      (let st3 = add_event (Executed a (k + 1)) st2 in
                       case exec env a (k + 1) (code_file st) of
                         Completed rc2 out2 err2 \<Rightarrow> (Inr (rc2, out2, err2), st3)
                       | RunTimeout \<Rightarrow> (Inr (rc, out, err), st3)
                       | RunError \<Rightarrow> (Inr (rc, out, err), st3))))
          else (Inr (rc, out, err), st1))"

subsection \<open>Validation of the output\<close>

text \<open>
  The block under \<open>if result.returncode == 0\<close>: \<open>Some v\<close> when it reaches
  \<open>return output_data\<close>.  An exception of \<open>json.loads\<close> is caught, a
  \<open>JSONDecodeError\<close> by the inner handler and any other by the outer one.
\<close>

definition validate :: "'f pipeline_env \<Rightarrow> int \<Rightarrow> string \<Rightarrow> 'f json option" where
  "validate env rc out =
     (if rc = 0 then
        (let stdout = strip out;
             json_output = extract_json_from_output stdout
         in if is_valid_json_output json_output then
              (case loads env json_output of
                 Inl e \<Rightarrow> None
               | Inr output_data \<Rightarrow> Some output_data)
            else None)
      else None)"

text \<open>
  A run followed by the validation, as in the initial attempt and at the end of a
  fix attempt: an exception of the run is caught and gives no answer.
\<close>

definition run_and_validate ::
  "'f pipeline_env \<Rightarrow> nat \<Rightarrow> nat \<Rightarrow> pstate \<Rightarrow> 'f json option \<times> pstate" where
  "run_and_validate env a k st =
     (case run_script env a k st of
        (Inl e, st1) \<Rightarrow> (None, st1)
      | (Inr (rc, out, err), st1) \<Rightarrow> (validate env rc out, st1))"

subsection \<open>RepairLoop\<close>

text \<open>
  The body of the \<open>while\<close> loop for the incremented counter \<open>n\<close>: \<open>Some v\<close> when
  it returns \<open>v\<close>, \<open>None\<close> when the loop goes on.  The first run only supplies the
  error context; its exceptions are caught by an inner handler.  Every exception
  behind it is caught by the handlers of the body.  The cleaned text is written,
  read back in text mode for the \<open>quality=\<close> strip and written again; the
  sanitizer is not run here.
\<close>

definition fix_iteration :: "'f pipeline_env \<Rightarrow> nat \<Rightarrow> pstate \<Rightarrow> 'f json option \<times> pstate" where
  "fix_iteration env n st =
     (let st0 = add_event (FixAttempt n) st;
          st1 = snd (run_script env n 0 st0);
          st2 = add_event (FixRequest n) st1;
          horizon_fix = ping_horizon (post_fix env n)
      in case response_text ''Unexpected Horizon fix response format'' horizon_fix of
           Inl e \<Rightarrow> (None, st2)
         | Inr t \<Rightarrow>
             (case as_str t of
                Inl e \<Rightarrow> (None, st2)
              | Inr fixed_code \<Rightarrow>
                  (let st3 = write_code (clean_fixed_code fixed_code) st2;
                       st4 = write_code (strip_quality (universal_newlines (code_file st3)))
                               st3
                   in run_and_validate env n 2 st4)))"

definition max_fix_attempts :: nat where
  "max_fix_attempts = 3"

datatype 'f outcome = Returned "'f json" | Raised exn

definition error_object :: "'f pipeline_env \<Rightarrow> 'f json" where
  "error_object env =
     JObj [(''error'', JStr ''Code execution failed after all attempts''),
           (''time'', JFloat (float_sub env (time_end env) (time_start env)))]"

function repair_loop :: "'f pipeline_env \<Rightarrow> nat \<Rightarrow> pstate \<Rightarrow> 'f outcome \<times> pstate" where
  "repair_loop env fix_attempt st =
     (if fix_attempt < max_fix_attempts then
        (case fix_iteration env (fix_attempt + 1) st of
           (Some output_data, st1) \<Rightarrow> (Returned output_data, st1)
         | (None, st1) \<Rightarrow> repair_loop env (fix_attempt + 1) st1)
      else (Returned (error_object env), st))"
  by pat_completeness auto
termination
  by (relation "measure (\<lambda>(env, fix_attempt, st). max_fix_attempts - fix_attempt)") auto

declare repair_loop.simps [simp del]

subsection \<open>The pipeline\<close>

text \<open>
  From the synthesis response to the sanitized program file.  An exception here is
  not inside any \<open>try\<close> and leaves \<open>aianalyst\<close>; it is returned with the state at
  that moment.  The \<open>quality=\<close> strip and the sanitizer each read the file back in
  text mode; the sanitizer writes it only when \<open>_modified\<close> is set.
\<close>

definition prepare ::
  "'f pipeline_env \<Rightarrow> string list \<Rightarrow> 'f json \<Rightarrow> pstate \<Rightarrow> exn \<times> pstate + pstate" where
  "prepare env allowed_paths horizon_response st =
     (case response_text ''Unexpected Horizon response format'' horizon_response of
        Inl e \<Rightarrow> Inl (e, st)
      | Inr t \<Rightarrow>
          (case as_str t of
             Inl e \<Rightarrow> Inl (e, st)
           | Inr raw_code \<Rightarrow>
               (let cleaned_code = strip_fences (strip raw_code) in
                case write_program env cleaned_code of
                  NotOpened e \<Rightarrow> Inl (e, st)
                | NotEncoded e \<Rightarrow> Inl (e, st\<lparr>code_file := []\<rparr>)
                | Written \<Rightarrow>
                    (let st1 = write_code cleaned_code st;
                         st2 = write_code (strip_quality (universal_newlines (code_file st1)))
                                 st1;
                         cm = sanitize_with_flag allowed_paths
                                (universal_newlines (code_file st2));
                         st3 = add_event Sanitized st2
                     in Inr (if snd cm then write_code (fst cm) st3 else st3)))))"

text \<open>
  \<open>aianalyst\<close> from the call of \<open>ping_horizon\<close> for the synthesis on;
  \<open>allowed_paths\<close> is the allow-list built before it, \<open>old_file\<close> the previous
  content of the program file.
\<close>

definition aianalyst ::
  "'f pipeline_env \<Rightarrow> string list \<Rightarrow> string \<Rightarrow> 'f outcome \<times> pstate" where
  "aianalyst env allowed_paths old_file =
     (let st = \<lparr>code_file = old_file, events = []\<rparr>;
          horizon_response = ping_horizon (post_synthesis env)
      in
      case prepare env allowed_paths horizon_response st of
        Inl est \<Rightarrow> (Raised (fst est), snd est)
      | Inr st1 \<Rightarrow>
          (case run_and_validate env 0 0 st1 of
             (Some output_data, st2) \<Rightarrow> (Returned output_data, st2)
           | (None, st2) \<Rightarrow> repair_loop env 0 st2))"

text \<open>The values the counter \<open>fix_attempt\<close> took, read off the record of effects.\<close>

definition fix_attempts :: "event list \<Rightarrow> nat list" where
  "fix_attempts es = List.map_filter (\<lambda>e. case e of FixAttempt n \<Rightarrow> Some n | _ \<Rightarrow> None) es"


section \<open>Properties of the output validator\<close>

lemma lstrip_decomp: "\<exists>a. s = a @ lstrip s"
  unfolding lstrip_def by (metis takeWhile_dropWhile_id)

lemma rstrip_decomp: "\<exists>b. s = rstrip s @ b"
proof -
  have "rev s = takeWhile is_space (rev s) @ dropWhile is_space (rev s)"
    by simp
  then have "s = rev (dropWhile is_space (rev s)) @ rev (takeWhile is_space (rev s))"
    by (metis rev_append rev_rev_ident)
  then show ?thesis unfolding rstrip_def by blast
qed

lemma strip_decomp: "\<exists>a b. s = a @ strip s @ b"
proof -
  obtain b where b: "s = rstrip s @ b" using rstrip_decomp by blast
  obtain a where a: "rstrip s = a @ lstrip (rstrip s)" using lstrip_decomp by blast
  have "s = a @ strip s @ b" unfolding strip_def using a b by (metis append_assoc)
  then show ?thesis by blast
qed

lemma findall_span_none:
  assumes "\<not> (\<exists>xs ys zs. s = xs @ [opn] @ ys @ [cl] @ zs)"
  shows "findall_span opn cl 0 s = []"
  using assms
proof (induction s)
  case Nil
  then show ?case by simp
next
  case (Cons c cs)
  have no_here: "\<not> (c = opn \<and> cl \<in> set cs)"
  proof
    assume h: "c = opn \<and> cl \<in> set cs"
    then obtain ys zs where "cs = ys @ cl # zs" by (meson split_list)
    with h have "c # cs = [] @ [opn] @ ys @ [cl] @ zs" by simp
    with Cons.prems show False by blast
  qed
  have no_later: "\<not> (\<exists>xs ys zs. cs = xs @ [opn] @ ys @ [cl] @ zs)"
  proof
    assume "\<exists>xs ys zs. cs = xs @ [opn] @ ys @ [cl] @ zs"
    then obtain xs ys zs where "cs = xs @ [opn] @ ys @ [cl] @ zs" by blast
    then have "c # cs = (c # xs) @ [opn] @ ys @ [cl] @ zs" by simp
    with Cons.prems show False by blast
  qed
  from Cons.IH [OF no_later] no_here show ?case by simp
qed

lemma span_free_strip:
  assumes "\<not> (\<exists>xs ys zs. s = xs @ [opn] @ ys @ [cl] @ zs)"
  shows "\<not> (\<exists>xs ys zs. strip s = xs @ [opn] @ ys @ [cl] @ zs)"
proof
  assume "\<exists>xs ys zs. strip s = xs @ [opn] @ ys @ [cl] @ zs"
  then obtain xs ys zs where m: "strip s = xs @ [opn] @ ys @ [cl] @ zs" by blast
  obtain a b where "s = a @ strip s @ b" using strip_decomp by blast
  with m have "s = (a @ xs) @ [opn] @ ys @ [cl] @ (zs @ b)" by simp
  with assms show False by blast
qed

text \<open>An executable test for "some substring starts with \<open>opn\<close> and ends with \<open>cl\<close>".\<close>

lemma span_exists_iff:
  "(\<exists>xs ys zs. s = xs @ [opn] @ ys @ [cl] @ zs)
     \<longleftrightarrow> cl \<in> set (tl (dropWhile (\<lambda>c. c \<noteq> opn) s))"
proof
  assume "\<exists>xs ys zs. s = xs @ [opn] @ ys @ [cl] @ zs"
  then obtain xs ys zs where s: "s = xs @ [opn] @ ys @ [cl] @ zs" by blast
  show "cl \<in> set (tl (dropWhile (\<lambda>c. c \<noteq> opn) s))"
  proof (cases "\<forall>x\<in>set xs. x \<noteq> opn")
    case True
    then have "dropWhile (\<lambda>c. c \<noteq> opn) s = opn # ys @ [cl] @ zs"
      unfolding s by (simp add: dropWhile_append)
    then show ?thesis by simp
  next
    case False
    then have ne: "dropWhile (\<lambda>c. c \<noteq> opn) xs \<noteq> []" by simp
    from False have "dropWhile (\<lambda>c. c \<noteq> opn) s
        = dropWhile (\<lambda>c. c \<noteq> opn) xs @ [opn] @ ys @ [cl] @ zs"
      unfolding s by (simp add: dropWhile_append)
    with ne show ?thesis by simp
  qed
next
  assume h: "cl \<in> set (tl (dropWhile (\<lambda>c. c \<noteq> opn) s))"
  define d where "d = dropWhile (\<lambda>c. c \<noteq> opn) s"
  from h have ne: "d \<noteq> []" unfolding d_def by (cases "dropWhile (\<lambda>c. c \<noteq> opn) s") auto
  then have "hd d = opn" unfolding d_def using hd_dropWhile [of "\<lambda>c. c \<noteq> opn" s] by simp
  with ne have d: "d = opn # tl d" by (cases d) auto
  from h obtain ys zs where t: "tl d = ys @ cl # zs"
    unfolding d_def by (meson split_list)
  have "s = takeWhile (\<lambda>c. c \<noteq> opn) s @ d" unfolding d_def by simp
  with d t have "s = takeWhile (\<lambda>c. c \<noteq> opn) s @ [opn] @ ys @ [cl] @ zs"
    by simp
  then show "\<exists>xs ys zs. s = xs @ [opn] @ ys @ [cl] @ zs" by blast
qed

text \<open>
  C5.  On the text \<open>noise{"a":1}moretext{"a":1,"b":2}noise\<close> the greedy pattern
  yields one single match, from the first opening brace to the last closing brace,
  and \<open>extract_json_from_output\<close> returns that span, which covers both objects and
  the text between them; it does not return the second object \<open>{"a":1,"b":2}\<close>.
\<close>

theorem extract_two_objects_returns_covering_span:
  \<open>extract_json_from_output ''noise{"a":1}moretext{"a":1,"b":2}noise''
     = ''{"a":1}moretext{"a":1,"b":2}''
   \<and> extract_json_from_output ''noise{"a":1}moretext{"a":1,"b":2}noise''
     \<noteq> ''{"a":1,"b":2}''\<close>
  by code_simp

text \<open>
  C10.  When no substring of the input starts with an opening brace and ends with a
  closing brace, and none starts with an opening bracket and ends with a closing
  bracket, \<open>extract_json_from_output\<close> returns the input stripped of leading and
  trailing whitespace.  The function is total: it has no failing branch.
\<close>

theorem extract_fallback_is_stripped_input:
  assumes "\<not> (\<exists>xs ys zs. output = xs @ ''{'' @ ys @ ''}'' @ zs)"
    and "\<not> (\<exists>xs ys zs. output = xs @ ''['' @ ys @ '']'' @ zs)"
  shows "extract_json_from_output output = strip output"
proof -
  have "findall_span (CHR ''{'') (CHR ''}'') 0 (strip output) = []"
    by (rule findall_span_none) (rule span_free_strip [OF assms(1)])
  moreover have "findall_span (CHR ''['') (CHR '']'') 0 (strip output) = []"
    by (rule findall_span_none) (rule span_free_strip [OF assms(2)])
  ultimately show ?thesis by (simp add: extract_json_from_output_def)
qed

theorem extract_fallback_is_stripped_input_witness:
  "extract_json_from_output ''  } total: 42 { ] [  '' = ''} total: 42 { ] [''"
proof -
  have a: "\<not> (\<exists>xs ys zs. ''  } total: 42 { ] [  '' = xs @ ''{'' @ ys @ ''}'' @ zs)"
    unfolding span_exists_iff by simp
  have b: "\<not> (\<exists>xs ys zs. ''  } total: 42 { ] [  '' = xs @ ''['' @ ys @ '']'' @ zs)"
    unfolding span_exists_iff by simp
  have "strip ''  } total: 42 { ] [  '' = ''} total: 42 { ] [''"
    by (simp add: strip_def lstrip_def rstrip_def is_space_def whitespace_chars_def)
  with extract_fallback_is_stripped_input [OF a b] show ?thesis by simp
qed

section \<open>Properties of the access sanitizer\<close>

text \<open>
  C1.  The program
  \<^verbatim>\<open>sales = pd.read_csv('sales_2023.csv')\<close>,
  \<^verbatim>\<open>costs = pd.read_csv('costs.csv')\<close>,
  \<^verbatim>\<open>print(len(sales))\<close>
  is sanitized against the allow-list \<open>['data.csv']\<close>.  Both reads are outside the
  allow-list.  The first line is rewritten and becomes shorter; the start offset of
  the second match, taken from the text before that rewrite, then falls into the
  third line of the current text, where nothing is found to replace.  The second
  read survives the pass with its path, which is not in the allow-list, neither by
  full value nor by basename.
\<close>

theorem sanitize_stale_offset_leaves_disallowed_read:
  "sanitize [''data.csv'']
     ''sales = pd.read_csv('sales_2023.csv')\<newline>costs = pd.read_csv('costs.csv')\<newline>print(len(sales))''
     = ''sales = '' @ [CHR 0x27, CHR 0x27]
         @ ''\<newline>costs = pd.read_csv('costs.csv')\<newline>print(len(sales))''
   \<and> csv_open_paths (sanitize [''data.csv'']
        ''sales = pd.read_csv('sales_2023.csv')\<newline>costs = pd.read_csv('costs.csv')\<newline>print(len(sales))'')
     = [''costs.csv'']
   \<and> \<not> path_allowed [''data.csv''] ''costs.csv''"
  by code_simp

lemma fst_foldl_sanitize_pass:
  "fst (foldl (sanitize_pass allowed_paths) cm ps)
     = foldl (sanitize_pattern allowed_paths) (fst cm) ps"
  by (induction ps arbitrary: cm) (simp_all add: sanitize_pass_def)

text \<open>The text of the pass with the flag is the text of the pass.\<close>

lemma fst_sanitize_with_flag:
  "fst (sanitize_with_flag allowed_paths code) = sanitize allowed_paths code"
  by (simp add: sanitize_with_flag_def sanitize_def fst_foldl_sanitize_pass)

text \<open>
  The one place where the type of the pattern is looked at: at a match of a
  Parquet-read pattern whose line is not taken for an assignment, the body of the
  inner loop leaves the current text as it is: the \<open>continue\<close> under the comment
  \<^verbatim>\<open>For read_parquet, do NOT replace the path, just leave the original line as is\<close>.
\<close>

lemma sanitize_match_parquet_no_assignment:
  "\<not> is_assignment code m \<Longrightarrow> sanitize_match allowed_paths ''parquet'' code m = code"
  by (simp add: sanitize_match_def Let_def)

text \<open>
  C2.  Two programs are sanitized against the empty allow-list.

  The first is \<^verbatim>\<open>df = pd.read_parquet('s3://bucket/t.parquet')\<close>.  Its only read is
  the match of the Parquet-read pattern, with a path outside the allow-list, on a
  line that is an assignment.  The pass does not leave it untouched: the assignment
  test comes before the test of the pattern type, the right-hand side is replaced,
  the text becomes \<^verbatim>\<open>df = ''\<close> and no Parquet read is left in it.

  The second is
  \<^verbatim>\<open>print(pd.read_parquet('a.parquet'), pd.read_csv('a.parquet'))\<close>.  Its line is
  not an assignment.  The loop over the CSV-read pattern blanks the first quoted
  occurrence of the path in the line, which is the argument of the Parquet read:
  the text becomes \<^verbatim>\<open>print(pd.read_parquet(''), pd.read_csv('a.parquet'))\<close>.
\<close>

theorem sanitize_rewrites_disallowed_parquet_read:
  "map group1 (finditer ''pd.read_parquet('' ''df = pd.read_parquet('s3://bucket/t.parquet')'')
     = [''s3://bucket/t.parquet'']
   \<and> \<not> path_allowed [] ''s3://bucket/t.parquet''
   \<and> map (is_assignment ''df = pd.read_parquet('s3://bucket/t.parquet')'')
         (finditer ''pd.read_parquet('' ''df = pd.read_parquet('s3://bucket/t.parquet')'')
     = [True]
   \<and> sanitize [] ''df = pd.read_parquet('s3://bucket/t.parquet')''
     = ''df = '' @ [CHR 0x27, CHR 0x27]
   \<and> finditer ''pd.read_parquet('' (sanitize [] ''df = pd.read_parquet('s3://bucket/t.parquet')'')
     = []
   \<and> finditer ''read_parquet('' (sanitize [] ''df = pd.read_parquet('s3://bucket/t.parquet')'')
     = []
   \<and> map group1 (finditer ''pd.read_parquet(''
                    ''print(pd.read_parquet('a.parquet'), pd.read_csv('a.parquet'))'')
     = [''a.parquet'']
   \<and> map (is_assignment ''print(pd.read_parquet('a.parquet'), pd.read_csv('a.parquet'))'')
         (finditer ''pd.read_parquet(''
                   ''print(pd.read_parquet('a.parquet'), pd.read_csv('a.parquet'))'')
     = [False]
   \<and> sanitize [] ''print(pd.read_parquet('a.parquet'), pd.read_csv('a.parquet'))''
     = ''print(pd.read_parquet('' @ [CHR 0x27, CHR 0x27]
         @ ''), pd.read_csv('a.parquet'))''
   \<and> finditer ''pd.read_parquet(''
        (sanitize [] ''print(pd.read_parquet('a.parquet'), pd.read_csv('a.parquet'))'')
     = []"
  by code_simp



section \<open>Properties of the regex fallback\<close>

lemma startswith_map:
  "startswith s p \<Longrightarrow> startswith (map f s) (map f p)"
  unfolding startswith_def by (metis length_map take_map)

lemma contains_map:
  "contains s p \<Longrightarrow> contains (map f s) (map f p)"
proof (induction s)
  case Nil
  then show ?case by simp
next
  case (Cons c cs)
  then show ?case using startswith_map [of "c # cs" p f] by auto
qed

lemma contains_self: "contains p p"
  by (cases p) (simp_all add: startswith_def)

lemma contains_append_left: "contains s p \<Longrightarrow> contains (a @ s) p"
  by (induction a) simp_all

lemma endswith_contains:
  assumes "endswith s p"
  shows "contains s p"
proof -
  from assms have "s = take (length s - length p) s @ p"
    unfolding endswith_def by (metis append_take_drop_id)
  then show ?thesis using contains_append_left [OF contains_self] by metis
qed

lemma lower_extensions:
  "lower ''.parquet'' = ''.parquet''" "lower ''.csv'' = ''.csv''" "lower ''.json'' = ''.json''"
  by code_simp+

lemma contains_lower_parquet: "contains c ''.parquet'' \<Longrightarrow> contains (lower c) ''.parquet''"
  using contains_map [of c "''.parquet''" lower_char] lower_extensions(1)
  unfolding lower_def by simp

lemma contains_lower_csv: "contains c ''.csv'' \<Longrightarrow> contains (lower c) ''.csv''"
  using contains_map [of c "''.csv''" lower_char] lower_extensions(2)
  unfolding lower_def by simp

lemma contains_lower_json: "contains c ''.json'' \<Longrightarrow> contains (lower c) ''.json''"
  using contains_map [of c "''.json''" lower_char] lower_extensions(3)
  unfolding lower_def by simp

lemma http_url_step_mono:
  "set (fst acc) \<subseteq> set (fst (http_url_step acc u))
   \<and> set (snd acc) \<subseteq> set (snd (http_url_step acc u))"
  by (auto simp: http_url_step_def Let_def)

lemma foldl_http_url_step_mono:
  "set (fst acc) \<subseteq> set (fst (foldl http_url_step acc us))
   \<and> set (snd acc) \<subseteq> set (snd (foldl http_url_step acc us))"
proof (induction us arbitrary: acc)
  case Nil
  then show ?case by simp
next
  case (Cons u us)
  from Cons.IH [of "http_url_step acc u"] http_url_step_mono [of acc u]
  show ?case by auto
qed

lemma s3_url_step_mono:
  "set (fst acc) \<subseteq> set (fst (s3_url_step acc u))
   \<and> set (snd acc) \<subseteq> set (snd (s3_url_step acc u))"
  by (auto simp: s3_url_step_def Let_def)

lemma foldl_s3_url_step_mono:
  "set (fst acc) \<subseteq> set (fst (foldl s3_url_step acc us))
   \<and> set (snd acc) \<subseteq> set (snd (foldl s3_url_step acc us))"
proof (induction us arbitrary: acc)
  case Nil
  then show ?case by simp
next
  case (Cons u us)
  from Cons.IH [of "s3_url_step acc u"] s3_url_step_mono [of acc u]
  show ?case by auto
qed

text \<open>
  What the step for one match puts into a list is still in that list when both
  loops have ended: the lists only grow.
\<close>

lemma database_file_of_step_survives:
  assumes "u \<in> set (findall_with match_http_url 0 question_text)"
    and "\<And>acc. e \<in> set (snd (http_url_step acc u))"
  shows "e \<in> set (database_files (extract_urls_with_regex question_text))"
proof -
  have "e \<in> set (snd (foldl http_url_step acc us))" if "u \<in> set us" for acc us
    using that
  proof (induction us arbitrary: acc)
    case Nil
    then show ?case by simp
  next
    case (Cons v vs)
    show ?case
    proof (cases "u = v")
      case True
      with assms(2) [of acc] foldl_http_url_step_mono [of "http_url_step acc v" vs]
      show ?thesis by auto
    next
      case False
      with Cons.prems have "u \<in> set vs" by simp
      from Cons.IH [OF this] show ?thesis by simp
    qed
  qed
  from this [OF assms(1)]
  have "e \<in> set (snd (foldl http_url_step ([], [])
                          (findall_with match_http_url 0 question_text)))" .
  with foldl_s3_url_step_mono
         [of "foldl http_url_step ([], []) (findall_with match_http_url 0 question_text)"
             "findall_with match_s3_url 0 question_text"]
  show ?thesis unfolding extract_urls_with_regex_def Let_def by auto
qed

lemma scrape_url_of_step_survives:
  assumes "u \<in> set (findall_with match_http_url 0 question_text)"
    and "\<And>acc :: string list \<times> 'f json list. e \<in> set (fst (http_url_step acc u))"
  shows "e \<in> set (scrape_urls (extract_urls_with_regex question_text :: 'f sources))"
proof -
  have "e \<in> set (fst (foldl http_url_step acc us))" if "u \<in> set us"
    for acc :: "string list \<times> 'f json list" and us
    using that
  proof (induction us arbitrary: acc)
    case Nil
    then show ?case by simp
  next
    case (Cons v vs)
    show ?case
    proof (cases "u = v")
      case True
      with assms(2) [of acc] foldl_http_url_step_mono [of "http_url_step acc v" vs]
      show ?thesis by auto
    next
      case False
      with Cons.prems have "u \<in> set vs" by simp
      from Cons.IH [OF this] show ?thesis by simp
    qed
  qed
  from this [OF assms(1)]
  have "e \<in> set (fst (foldl http_url_step ([], [] :: 'f json list)
                          (findall_with match_http_url 0 question_text)))" .
  with foldl_s3_url_step_mono
         [of "foldl http_url_step ([], [] :: 'f json list)
                (findall_with match_http_url 0 question_text)"
             "findall_with match_s3_url 0 question_text"]
  show ?thesis unfolding extract_urls_with_regex_def Let_def by auto
qed

text \<open>
  C6, as stated, fails.  In \<^verbatim>\<open>Data: https://data.org/export.csv?download=1\<close> the
  regex fallback extracts one URL; it passes the denylist and does not end in
  \<open>.csv\<close>, \<open>.parquet\<close> or \<open>.json\<close>; yet it becomes a \<open>database_files\<close> entry of
  format \<open>csv\<close> and no \<open>scrape_urls\<close> entry.
\<close>

theorem regex_fallback_query_string_is_database_file:
  "findall_with match_http_url 0 ''Data: https://data.org/export.csv?download=1''
     = [''https://data.org/export.csv?download=1'']
   \<and> clean_trailing ''https://data.org/export.csv?download=1''
     = ''https://data.org/export.csv?download=1''
   \<and> \<not> any_in skip_patterns (lower ''https://data.org/export.csv?download=1'')
   \<and> \<not> any_in [''ecourts.gov.in''] (lower ''https://data.org/export.csv?download=1'')
   \<and> \<not> endswith ''https://data.org/export.csv?download=1'' ''.csv''
   \<and> \<not> endswith ''https://data.org/export.csv?download=1'' ''.parquet''
   \<and> \<not> endswith ''https://data.org/export.csv?download=1'' ''.json''
   \<and> (extract_urls_with_regex ''Data: https://data.org/export.csv?download=1'' :: unit sources)
     = \<lparr>scrape_urls = [],
         database_files =
           [db_entry ''https://data.org/export.csv?download=1'' ''csv'' ''Database file (csv)''],
         has_data_sources = True\<rparr>"
  by code_simp

text \<open>
  C6, amended.  For every HTTP(S) URL that the regex fallback extracts and that
  passes the denylist, with \<open>c\<close> the URL without its trailing punctuation: the URL
  is classified by the extensions it contains, wherever they stand.  If \<open>c\<close>
  contains \<open>.parquet\<close> it becomes a \<open>database_files\<close> entry of format \<open>parquet\<close>;
  if not and it contains \<open>.csv\<close>, one of format \<open>csv\<close>; if neither and it contains
  \<open>.json\<close>, one of format \<open>json\<close>.  So a URL ending in \<open>.parquet\<close> is a Parquet
  database file, one ending in \<open>.csv\<close> a CSV database file unless \<open>.parquet\<close> occurs
  in it, and one ending in \<open>.json\<close> a JSON database file unless \<open>.parquet\<close> or
  \<open>.csv\<close> occurs in it.  If the lower-cased \<open>c\<close> contains none of the three
  extensions and not \<open>ecourts.gov.in\<close>, the URL becomes a \<open>scrape_urls\<close> entry.
\<close>

theorem regex_fallback_classifies_by_containment:
  fixes question_text :: string and r :: "'f sources"
  assumes "u \<in> set (findall_with match_http_url 0 question_text)"
    and "\<not> any_in skip_patterns (lower (clean_trailing u))"
    and "r = extract_urls_with_regex question_text"
    and "c = clean_trailing u"
  shows
    "(contains c ''.parquet'' \<longrightarrow>
        db_entry c ''parquet'' ''Database file (parquet)'' \<in> set (database_files r))
   \<and> (\<not> contains c ''.parquet'' \<and> contains c ''.csv'' \<longrightarrow>
        db_entry c ''csv'' ''Database file (csv)'' \<in> set (database_files r))
   \<and> (\<not> contains c ''.parquet'' \<and> \<not> contains c ''.csv'' \<and> contains c ''.json'' \<longrightarrow>
        db_entry c ''json'' ''Database file (json)'' \<in> set (database_files r))
   \<and> (endswith c ''.parquet'' \<longrightarrow>
        db_entry c ''parquet'' ''Database file (parquet)'' \<in> set (database_files r))
   \<and> (endswith c ''.csv'' \<and> \<not> contains c ''.parquet'' \<longrightarrow>
        db_entry c ''csv'' ''Database file (csv)'' \<in> set (database_files r))
   \<and> (endswith c ''.json'' \<and> \<not> contains c ''.parquet'' \<and> \<not> contains c ''.csv'' \<longrightarrow>
        db_entry c ''json'' ''Database file (json)'' \<in> set (database_files r))
   \<and> (\<not> any_in [''.parquet'', ''.csv'', ''.json''] (lower c)
        \<and> \<not> any_in [''ecourts.gov.in''] (lower c) \<longrightarrow>
        c \<in> set (scrape_urls r))"
proof -
  note skip = assms(2) [folded assms(4)]
  have parquet: "db_entry c ''parquet'' ''Database file (parquet)'' \<in> set (database_files r)"
    if h: "contains c ''.parquet''"
  proof -
    have "\<And>acc :: string list \<times> 'f json list.
            db_entry c ''parquet'' ''Database file (parquet)'' \<in> set (snd (http_url_step acc u))"
      using skip h contains_lower_parquet [OF h]
      by (simp add: http_url_step_def Let_def any_in_def assms(4))
    from database_file_of_step_survives [OF assms(1) this] show ?thesis
      by (simp add: assms(3))
  qed
  have csv: "db_entry c ''csv'' ''Database file (csv)'' \<in> set (database_files r)"
    if n: "\<not> contains c ''.parquet''" and h: "contains c ''.csv''"
  proof -
    have "\<And>acc :: string list \<times> 'f json list.
            db_entry c ''csv'' ''Database file (csv)'' \<in> set (snd (http_url_step acc u))"
      using skip n h contains_lower_csv [OF h]
      by (simp add: http_url_step_def Let_def any_in_def assms(4))
    from database_file_of_step_survives [OF assms(1) this] show ?thesis
      by (simp add: assms(3))
  qed
  have json: "db_entry c ''json'' ''Database file (json)'' \<in> set (database_files r)"
    if n: "\<not> contains c ''.parquet''" "\<not> contains c ''.csv''" and h: "contains c ''.json''"
  proof -
    have "\<And>acc :: string list \<times> 'f json list.
            db_entry c ''json'' ''Database file (json)'' \<in> set (snd (http_url_step acc u))"
      using skip n h contains_lower_json [OF h]
      by (simp add: http_url_step_def Let_def any_in_def assms(4))
    from database_file_of_step_survives [OF assms(1) this] show ?thesis
      by (simp add: assms(3))
  qed
  have scrape: "c \<in> set (scrape_urls r)"
    if n: "\<not> any_in [''.parquet'', ''.csv'', ''.json''] (lower c)"
      and e: "\<not> any_in [''ecourts.gov.in''] (lower c)"
  proof -
    have "\<And>acc :: string list \<times> 'f json list. c \<in> set (fst (http_url_step acc u))"
      using skip n e by (simp add: http_url_step_def Let_def assms(4))
    from scrape_url_of_step_survives [OF assms(1) this] show ?thesis
      by (simp add: assms(3))
  qed
  from parquet csv json scrape endswith_contains show ?thesis by blast
qed

theorem regex_fallback_classifies_by_containment_witness:
  "''https://data.org/t.csv,''
       \<in> set (findall_with match_http_url 0 ''Use https://data.org/t.csv, and http://stats.gov/table.'')
   \<and> clean_trailing ''https://data.org/t.csv,'' = ''https://data.org/t.csv''
   \<and> \<not> any_in skip_patterns (lower ''https://data.org/t.csv'')
   \<and> endswith ''https://data.org/t.csv'' ''.csv''
   \<and> \<not> contains ''https://data.org/t.csv'' ''.parquet''
   \<and> db_entry ''https://data.org/t.csv'' ''csv'' ''Database file (csv)''
       \<in> set (database_files
                (extract_urls_with_regex
                   ''Use https://data.org/t.csv, and http://stats.gov/table.'' :: unit sources))"
proof -
  have m: "''https://data.org/t.csv,''
       \<in> set (findall_with match_http_url 0 ''Use https://data.org/t.csv, and http://stats.gov/table.'')"
    by code_simp
  have c: "''https://data.org/t.csv'' = clean_trailing ''https://data.org/t.csv,''"
    by code_simp
  have s: "\<not> any_in skip_patterns (lower (clean_trailing ''https://data.org/t.csv,''))"
    by code_simp
  have e: "endswith ''https://data.org/t.csv'' ''.csv''"
    by code_simp
  have n: "\<not> contains ''https://data.org/t.csv'' ''.parquet''"
    by code_simp
  from regex_fallback_classifies_by_containment [OF m s refl c] e n
  have "db_entry ''https://data.org/t.csv'' ''csv'' ''Database file (csv)''
       \<in> set (database_files
                (extract_urls_with_regex
                   ''Use https://data.org/t.csv, and http://stats.gov/table.'' :: unit sources))"
    by blast
  with m c s e n show ?thesis by simp
qed

section \<open>Properties of \<open>scrape_all_urls\<close>\<close>

lemma scrape_step_saved_files:
  "saved_files (scrape_step env st iu)
     = saved_files st @ (if saves env iu then [filename_for (fst iu)] else [])"
  by (simp add: scrape_step_def saves_def returned_def Let_def split: sum.splits)

lemma scrape_step_scraped_data:
  "map (\<lambda>e. (filename e, source_url e)) (scraped_data (scrape_step env st iu))
     = map (\<lambda>e. (filename e, source_url e)) (scraped_data st)
       @ (if records env iu then [(filename_for (fst iu), snd iu)] else [])"
  by (simp add: scrape_step_def records_def returned_def Let_def split: sum.splits)

lemma scrape_loop_saved_files:
  "saved_files (foldl (scrape_step env) st xs)
     = saved_files st @ map (\<lambda>iu. filename_for (fst iu)) (filter (saves env) xs)"
proof (induction xs arbitrary: st)
  case Nil
  then show ?case by simp
next
  case (Cons x xs)
  show ?case
    by (simp add: Cons.IH [of "scrape_step env st x"] scrape_step_saved_files)
qed

lemma scrape_loop_scraped_data:
  "map (\<lambda>e. (filename e, source_url e)) (scraped_data (foldl (scrape_step env) st xs))
     = map (\<lambda>e. (filename e, source_url e)) (scraped_data st)
       @ map (\<lambda>iu. (filename_for (fst iu), snd iu)) (filter (records env) xs)"
proof (induction xs arbitrary: st)
  case Nil
  then show ?case by simp
next
  case (Cons x xs)
  show ?case
    by (simp add: Cons.IH [of "scrape_step env st x"] scrape_step_scraped_data)
qed

lemma filename_for_two: "filename_for (Suc (Suc 0)) = ''data3.csv''"
  by code_simp

text \<open>
  C7.  For every list of URLs and every behaviour of the scraper: the files written
  are exactly those of the positions whose iteration saves, in list order, and the
  file of position \<open>i\<close> is named \<open>filename_for i\<close>, which is \<open>data.csv\<close> for
  position 0 and \<open>data\<close>, the decimal \<open>i + 1\<close>, \<open>.csv\<close> for a later position; the
  same holds for the entries of \<open>scraped_data\<close>.  The name depends on the position
  alone, not on earlier successes: when of three URLs the first and the third are
  saved and the second is not, the files are \<open>data.csv\<close> and \<open>data3.csv\<close>.
\<close>

theorem scrape_filenames_follow_position:
  "saved_files (scrape_all_urls env urls)
     = map (\<lambda>iu. filename_for (fst iu)) (filter (saves env) (enumerate 0 urls))
   \<and> map (\<lambda>e. (filename e, source_url e)) (scraped_data (scrape_all_urls env urls))
     = map (\<lambda>iu. (filename_for (fst iu), snd iu)) (filter (records env) (enumerate 0 urls))
   \<and> filename_for 0 = ''data.csv''
   \<and> filename_for (Suc i) = ''data'' @ str_nat (Suc i + 1) @ ''.csv''
   \<and> (saves env (0, u1) \<and> \<not> saves env (1, u2) \<and> saves env (2, u3) \<longrightarrow>
        saved_files (scrape_all_urls env [u1, u2, u3]) = [''data.csv'', ''data3.csv''])"
proof -
  have files: "saved_files (scrape_all_urls env us)
     = map (\<lambda>iu. filename_for (fst iu)) (filter (saves env) (enumerate 0 us))" for us
    by (simp add: scrape_all_urls_def scrape_loop_saved_files)
  have entries: "map (\<lambda>e. (filename e, source_url e)) (scraped_data (scrape_all_urls env urls))
     = map (\<lambda>iu. (filename_for (fst iu), snd iu)) (filter (records env) (enumerate 0 urls))"
    by (simp add: scrape_all_urls_def scrape_loop_scraped_data)
  have first: "filename_for 0 = ''data.csv''"
    by (simp add: filename_for_def)
  have later: "filename_for (Suc i) = ''data'' @ str_nat (Suc i + 1) @ ''.csv''"
    by (simp add: filename_for_def)
  have three: "saved_files (scrape_all_urls env [u1, u2, u3]) = [''data.csv'', ''data3.csv'']"
    if "saves env (0, u1) \<and> \<not> saves env (1, u2) \<and> saves env (2, u3)"
    using that by (simp add: files [of "[u1, u2, u3]"] numeral_2_eq_2 first filename_for_two)
  from files [of urls] entries first later three show ?thesis by blast
qed

theorem scrape_filenames_follow_position_witness:
  "saved_files
     (scrape_all_urls
        \<lparr>extract_data = (\<lambda>i u. if u = ''http://b.org'' then Inl (OtherError ''unreachable'')
                                else Inr ()),
         df_empty = (\<lambda>d. False),
         to_csv = (\<lambda>d f. Inr ()),
         df_info = (\<lambda>d. Inr ())\<rparr>
        [''http://a.org'', ''http://b.org'', ''http://c.org''])
     = [''data.csv'', ''data3.csv'']"
proof -
  let ?env = "\<lparr>extract_data = (\<lambda>i u. if u = ''http://b.org''
                                         then Inl (OtherError ''unreachable'')
                                         else Inr ()),
               df_empty = (\<lambda>d::unit. False),
               to_csv = (\<lambda>(d::unit) f. Inr ()),
               df_info = (\<lambda>d::unit. Inr ())\<rparr> :: (unit, unit) scrape_env"
  have h: "saves ?env (0, ''http://a.org'') \<and> \<not> saves ?env (1, ''http://b.org'')
           \<and> saves ?env (2, ''http://c.org'')"
    by (simp add: saves_def returned_def)
  from scrape_filenames_follow_position
         [of ?env "[]" 0 "''http://a.org''" "''http://b.org''" "''http://c.org''"] h
  show ?thesis by blast
qed

section \<open>Properties of \<open>get_database_schemas\<close>\<close>

lemma dict_get_of_dict: "is_dict d \<Longrightarrow> \<exists>u. dict_get d k = Inr u"
  by (cases d) (simp_all add: is_dict_def dict_get_def)

lemma probe_loop_isolates:
  assumes "list_all (\<lambda>idb. is_dict (snd idb)) xs"
  shows "probe_loop env acc xs = Inr (acc @ List.map_filter (probed_entry env) xs)"
  using assms
proof (induction xs arbitrary: acc)
  case Nil
  then show ?case by (simp add: map_filter_simps)
next
  case (Cons x xs)
  from Cons.prems have d: "is_dict (snd x)" and rest: "list_all (\<lambda>idb. is_dict (snd idb)) xs"
    by simp_all
  from dict_get_of_dict [OF d] obtain u where u: "dict_get (snd x) ''url'' = Inr u"
    by blast
  show ?case
  proof (cases "probe_item env (fst x) (snd x)")
    case (Inl e)
    then show ?thesis
      by (simp add: u Cons.IH [OF rest] probed_entry_def map_filter_simps)
  next
    case (Inr r)
    then show ?thesis
      by (cases r) (simp_all add: Cons.IH [OF rest] probed_entry_def map_filter_simps)
  qed
qed

lemma enumerate_all_dicts:
  "list_all is_dict fs \<Longrightarrow> list_all (\<lambda>idb. is_dict (snd idb)) (enumerate n fs)"
  by (induction fs arbitrary: n) simp_all

text \<open>
  C8.  For every list of database-file references (dictionaries, with any keys and
  any values) and every behaviour of the engine, once the connection is opened and
  whether or not the extensions load:
  \<open>get_database_schemas\<close> returns, and it returns exactly the entries of the items
  whose own probe reaches the \<open>append\<close>, in list order.  An item whose probe
  raises or is skipped is left out, and every other item is probed and kept or
  left out on its own account.
\<close>

theorem probe_errors_are_isolated:
  assumes "connect env = Inr ()" and "list_all is_dict db_files"
  shows "get_database_schemas env db_files
           = Inr (List.map_filter (probed_entry env) (enumerate 0 db_files))"
  using probe_loop_isolates [OF enumerate_all_dicts [OF assms(2)], of env "[]" 0] assms(1)
  by (simp add: get_database_schemas_def split: sum.splits)

theorem probe_errors_are_isolated_witness:
  "get_database_schemas
     \<lparr>connect = Inr (),
      load_extensions = Inl (OtherError ''HTTP Error''),
      describe = (\<lambda>i q. if i = 1 then Inl (OtherError ''IO Error'')
                         else Inr [(''id'', ''BIGINT''), (''name'', ''VARCHAR'')]),
      sample = (\<lambda>i q. Inr (5::nat)),
      float_truthy = (\<lambda>x::unit. False),
      py_str = (\<lambda>v. ''?'')\<rparr>
     [db_entry ''https://h.org/a.csv'' ''csv'' ''first'',
      db_entry ''https://h.org/b.csv'' ''csv'' ''second'',
      JObj [(''url'', JStr '''')],
      JObj [(''url'', JStr ''https://h.org/d.xml''), (''format'', JStr ''xml'')],
      db_entry ''s3://bucket/e.parquet'' ''parquet'' ''fifth'']
   = Inr [\<lparr>db_filename = ''database_1'',
            db_source_url = JStr ''https://h.org/a.csv'',
            db_format = JStr ''csv'',
            schema_columns = [''id'', ''name''],
            schema_column_types = [(''id'', ''BIGINT''), (''name'', ''VARCHAR'')],
            db_sample_data = 5,
            db_description = JStr ''first'',
            total_columns = 2\<rparr>,
          \<lparr>db_filename = ''database_5'',
            db_source_url = JStr ''s3://bucket/e.parquet'',
            db_format = JStr ''parquet'',
            schema_columns = [''id'', ''name''],
            schema_column_types = [(''id'', ''BIGINT''), (''name'', ''VARCHAR'')],
            db_sample_data = 5,
            db_description = JStr ''fifth'',
            total_columns = 2\<rparr>]"
proof -
  let ?env = "\<lparr>connect = Inr (),
      load_extensions = Inl (OtherError ''HTTP Error''),
      describe = (\<lambda>i q. if i = 1 then Inl (OtherError ''IO Error'')
                         else Inr [(''id'', ''BIGINT''), (''name'', ''VARCHAR'')]),
      sample = (\<lambda>i q. Inr (5::nat)),
      float_truthy = (\<lambda>x::unit. False),
      py_str = (\<lambda>v. ''?'')\<rparr> :: (unit, nat) probe_env"
  let ?files = "[db_entry ''https://h.org/a.csv'' ''csv'' ''first'',
      db_entry ''https://h.org/b.csv'' ''csv'' ''second'',
      JObj [(''url'', JStr '''')],
      JObj [(''url'', JStr ''https://h.org/d.xml''), (''format'', JStr ''xml'')],
      db_entry ''s3://bucket/e.parquet'' ''parquet'' ''fifth''] :: unit json list"
  have c: "connect ?env = Inr ()"
    by simp
  have d: "list_all is_dict ?files"
    by (simp add: is_dict_def db_entry_def)
  have v: "List.map_filter (probed_entry ?env) (enumerate 0 ?files)
     = [\<lparr>db_filename = ''database_1'',
            db_source_url = JStr ''https://h.org/a.csv'',
            db_format = JStr ''csv'',
            schema_columns = [''id'', ''name''],
            schema_column_types = [(''id'', ''BIGINT''), (''name'', ''VARCHAR'')],
            db_sample_data = 5,
            db_description = JStr ''first'',
            total_columns = 2\<rparr>,
          \<lparr>db_filename = ''database_5'',
            db_source_url = JStr ''s3://bucket/e.parquet'',
            db_format = JStr ''parquet'',
            schema_columns = [''id'', ''name''],
            schema_column_types = [(''id'', ''BIGINT''), (''name'', ''VARCHAR'')],
            db_sample_data = 5,
            db_description = JStr ''fifth'',
            total_columns = 2\<rparr>]"
    by code_simp
  from probe_errors_are_isolated [OF c d] v show ?thesis
    by simp
qed

text \<open>
  The hypothesis on the items is needed: for an item that is not a dictionary the
  handler's own \<open>db_file.get('url')\<close> raises, outside the \<open>try\<close>.
\<close>

lemma non_dict_item_escapes:
  assumes "connect env = Inr ()"
  shows "get_database_schemas env [JStr u] = Inl AttributeError"
  using assms
  by (simp add: get_database_schemas_def probe_item_def subscript_def dict_get_def
      split: sum.splits)

section \<open>Properties of the pipeline\<close>

lemma fix_attempts_append:
  "fix_attempts (xs @ ys) = fix_attempts xs @ fix_attempts ys"
  by (simp add: fix_attempts_def map_filter_def)

lemma fix_attempts_add_event:
  "fix_attempts (events (add_event e st))
     = fix_attempts (events st) @ (case e of FixAttempt n \<Rightarrow> [n] | _ \<Rightarrow> [])"
  by (cases e) (simp_all add: add_event_def fix_attempts_def map_filter_def)

lemma fix_attempts_write_code:
  "fix_attempts (events (write_code c st)) = fix_attempts (events st)"
  by (simp add: write_code_def fix_attempts_def map_filter_def)

lemma fix_attempts_run_script:
  "fix_attempts (events (snd (run_script env a k st))) = fix_attempts (events st)"
  by (simp add: run_script_def Let_def fix_attempts_add_event
      split: run_outcome.splits option.splits sum.splits)

lemma fix_attempts_run_and_validate:
  "fix_attempts (events (snd (run_and_validate env a k st))) = fix_attempts (events st)"
proof -
  have "snd (run_and_validate env a k st) = snd (run_script env a k st)"
    by (simp add: run_and_validate_def split: prod.splits sum.splits)
  then show ?thesis by (simp add: fix_attempts_run_script)
qed

lemma fix_attempts_fix_iteration:
  "fix_attempts (events (snd (fix_iteration env n st))) = fix_attempts (events st) @ [n]"
  by (simp add: fix_iteration_def Let_def fix_attempts_add_event fix_attempts_write_code
      fix_attempts_run_script fix_attempts_run_and_validate split: sum.splits)

lemma fix_attempts_prepare:
  assumes "prepare env allowed_paths horizon_response st = Inr st1"
  shows "fix_attempts (events st1) = fix_attempts (events st)"
  using assms
  by (auto simp: prepare_def Let_def fix_attempts_def map_filter_def add_event_def
      write_code_def split: sum.splits write_outcome.splits if_splits)

text \<open>
  An exception that leaves \<open>prepare\<close> leaves it before any recorded effect, and
  \<open>prepare\<close> succeeds exactly when the response resolves to a string and the first
  write of the program file succeeds.
\<close>

lemma prepare_raises_without_effects:
  assumes "prepare env allowed_paths horizon_response st = Inl est"
  shows "events (snd est) = events st"
  using assms
  by (auto simp: prepare_def Let_def split: sum.splits write_outcome.splits)

lemma prepare_succeeds_iff:
  "(\<exists>st1. prepare env allowed_paths horizon_response st = Inr st1)
     = (\<exists>raw_code.
          response_text ''Unexpected Horizon response format'' horizon_response
            = Inr (JStr raw_code)
          \<and> write_program env (strip_fences (strip raw_code)) = Written)"
  by (auto simp: prepare_def as_str_def Let_def
      split: sum.splits json.splits write_outcome.splits)


lemma validate_is_parsed:
  assumes "validate env rc out = Some v"
  shows "\<exists>s. loads env s = Inr v"
  using assms by (auto simp: validate_def Let_def split: if_splits sum.splits)

lemma run_and_validate_is_parsed:
  assumes "fst (run_and_validate env a k st) = Some v"
  shows "\<exists>s. loads env s = Inr v"
proof -
  obtain r st1 where rs: "run_script env a k st = (r, st1)"
    by (cases "run_script env a k st")
  show ?thesis
  proof (cases r)
    case (Inl e)
    with rs assms show ?thesis by (simp add: run_and_validate_def)
  next
    case (Inr res)
    obtain rc out err where res: "res = (rc, out, err)" by (cases res)
    with rs Inr assms have "validate env rc out = Some v"
      by (simp add: run_and_validate_def)
    then show ?thesis by (rule validate_is_parsed)
  qed
qed

lemma fix_iteration_is_parsed:
  assumes "fst (fix_iteration env n st) = Some v"
  shows "\<exists>s. loads env s = Inr v"
proof (cases "response_text ''Unexpected Horizon fix response format''
               (ping_horizon (post_fix env n))")
  case (Inl e)
  with assms show ?thesis by (simp add: fix_iteration_def Let_def)
next
  case (Inr t)
  show ?thesis
  proof (cases "as_str t")
    case (Inl e)
    with Inr assms show ?thesis by (simp add: fix_iteration_def Let_def)
  next
    case (Inr fixed_code)
    with \<open>response_text ''Unexpected Horizon fix response format''
            (ping_horizon (post_fix env n)) = Inr t\<close>
      assms
    obtain st4 where "fst (run_and_validate env n 2 st4) = Some v"
      by (simp add: fix_iteration_def Let_def)
    then show ?thesis by (rule run_and_validate_is_parsed)
  qed
qed

text \<open>The loop from any value of the counter: computation induction.\<close>

lemma repair_loop_from:
  "\<exists>k. fix_attempt + k \<le> max fix_attempt 3
       \<and> fix_attempts (events (snd (repair_loop env fix_attempt st)))
           = fix_attempts (events st) @ [fix_attempt + 1 ..< fix_attempt + 1 + k]
       \<and> (\<exists>v. fst (repair_loop env fix_attempt st) = Returned v
              \<and> (v = error_object env \<and> 3 \<le> fix_attempt + k
                 \<or> (\<exists>s. loads env s = Inr v) \<and> 1 \<le> k))"
proof (induction env fix_attempt st rule: repair_loop.induct)
  case (1 env fix_attempt st)
  show ?case
  proof (cases "fix_attempt < max_fix_attempts")
    case False
    then have ge: "3 \<le> fix_attempt" by (simp add: max_fix_attempts_def)
    from False have "repair_loop env fix_attempt st = (Returned (error_object env), st)"
      by (simp add: repair_loop.simps)
    with ge have "fix_attempt + 0 \<le> max fix_attempt 3
       \<and> fix_attempts (events (snd (repair_loop env fix_attempt st)))
           = fix_attempts (events st) @ [fix_attempt + 1 ..< fix_attempt + 1 + 0]
       \<and> (\<exists>v. fst (repair_loop env fix_attempt st) = Returned v
              \<and> (v = error_object env \<and> 3 \<le> fix_attempt + 0
                 \<or> (\<exists>s. loads env s = Inr v) \<and> 1 \<le> (0::nat)))"
      by simp
    then show ?thesis by blast
  next
    case True
    then have lt: "fix_attempt < 3" by (simp add: max_fix_attempts_def)
    obtain r st1 where it: "fix_iteration env (fix_attempt + 1) st = (r, st1)"
      by (cases "fix_iteration env (fix_attempt + 1) st")
    have ev: "fix_attempts (events st1) = fix_attempts (events st) @ [fix_attempt + 1]"
      using fix_attempts_fix_iteration [of env "fix_attempt + 1" st] it by simp
    show ?thesis
    proof (cases r)
      case (Some v)
      with it True have rl: "repair_loop env fix_attempt st = (Returned v, st1)"
        by (simp add: repair_loop.simps [of env fix_attempt st])
      from it Some have "\<exists>s. loads env s = Inr v"
        using fix_iteration_is_parsed [of env "fix_attempt + 1" st v] by simp
      with rl ev lt have "fix_attempt + 1 \<le> max fix_attempt 3
         \<and> fix_attempts (events (snd (repair_loop env fix_attempt st)))
             = fix_attempts (events st) @ [fix_attempt + 1 ..< fix_attempt + 1 + 1]
         \<and> (\<exists>v. fst (repair_loop env fix_attempt st) = Returned v
                \<and> (v = error_object env \<and> 3 \<le> fix_attempt + 1
                   \<or> (\<exists>s. loads env s = Inr v) \<and> 1 \<le> (1::nat)))"
        by simp
      then show ?thesis by blast
    next
      case None
      with it True have rl: "repair_loop env fix_attempt st
                               = repair_loop env (fix_attempt + 1) st1"
        by (simp add: repair_loop.simps [of env fix_attempt st])
      from "1.IH" [OF True it [symmetric] None]
      obtain k where k: "fix_attempt + 1 + k \<le> max (fix_attempt + 1) 3"
        and evk: "fix_attempts (events (snd (repair_loop env (fix_attempt + 1) st1)))
                    = fix_attempts (events st1)
                      @ [fix_attempt + 1 + 1 ..< fix_attempt + 1 + 1 + k]"
        and res: "\<exists>v. fst (repair_loop env (fix_attempt + 1) st1) = Returned v
                    \<and> (v = error_object env \<and> 3 \<le> fix_attempt + 1 + k
                       \<or> (\<exists>s. loads env s = Inr v) \<and> 1 \<le> k)"
        by blast
      have "[Suc fix_attempt ..< Suc (Suc (fix_attempt + k))]
              = Suc fix_attempt # [Suc (Suc fix_attempt) ..< Suc (Suc (fix_attempt + k))]"
        by (rule upt_conv_Cons) simp
      then have upt: "[fix_attempt + 1] @ [fix_attempt + 1 + 1 ..< fix_attempt + 1 + 1 + k]
                   = [fix_attempt + 1 ..< fix_attempt + 1 + (k + 1)]"
        by simp
      from k lt have "fix_attempt + (k + 1) \<le> max fix_attempt 3" by simp
      moreover have "fix_attempts (events (snd (repair_loop env fix_attempt st)))
           = fix_attempts (events st) @ [fix_attempt + 1 ..< fix_attempt + 1 + (k + 1)]"
        using rl evk ev upt by simp
      moreover from res obtain v
        where rv: "fst (repair_loop env (fix_attempt + 1) st1) = Returned v"
          and dv: "v = error_object env \<and> 3 \<le> fix_attempt + 1 + k
                   \<or> (\<exists>s. loads env s = Inr v) \<and> 1 \<le> k"
        by blast
      from dv have "v = error_object env \<and> 3 \<le> fix_attempt + (k + 1)
                    \<or> (\<exists>s. loads env s = Inr v) \<and> 1 \<le> k + 1"
        by auto
      with rv rl have "\<exists>v. fst (repair_loop env fix_attempt st) = Returned v
              \<and> (v = error_object env \<and> 3 \<le> fix_attempt + (k + 1)
                 \<or> (\<exists>s. loads env s = Inr v) \<and> 1 \<le> k + 1)"
        by simp
      ultimately show ?thesis by blast
    qed
  qed
qed

lemma repair_loop_from_zero:
  "\<exists>k\<le>3. fix_attempts (events (snd (repair_loop env 0 st)))
             = fix_attempts (events st) @ [1 ..< Suc k]
          \<and> (\<exists>v. fst (repair_loop env 0 st) = Returned v
                 \<and> (v = error_object env \<and> k = 3
                    \<or> (\<exists>s. loads env s = Inr v) \<and> 1 \<le> k))"
proof -
  from repair_loop_from [of 0 env st]
  obtain k v where k: "0 + k \<le> max 0 (3::nat)"
    and ev: "fix_attempts (events (snd (repair_loop env 0 st)))
               = fix_attempts (events st) @ [0 + 1 ..< 0 + 1 + k]"
    and rv: "fst (repair_loop env 0 st) = Returned v"
    and dv: "v = error_object env \<and> 3 \<le> 0 + k
             \<or> (\<exists>s. loads env s = Inr v) \<and> 1 \<le> k"
    by blast
  from k have k3: "k \<le> 3" by simp
  from ev have ev1: "fix_attempts (events (snd (repair_loop env 0 st)))
               = fix_attempts (events st) @ [1 ..< Suc k]"
    by simp
  from dv k3 have "v = error_object env \<and> k = 3
                   \<or> (\<exists>s. loads env s = Inr v) \<and> 1 \<le> k"
    by auto
  with rv have "\<exists>v. fst (repair_loop env 0 st) = Returned v
                 \<and> (v = error_object env \<and> k = 3
                    \<or> (\<exists>s. loads env s = Inr v) \<and> 1 \<le> k)"
    by blast
  with k3 ev1 show ?thesis by blast
qed


lemma repair_loop_step_none:
  assumes "n < 3" and "fix_iteration env (Suc n) st = (None, st1)"
  shows "repair_loop env n st = repair_loop env (Suc n) st1"
  using assms by (subst repair_loop.simps) (simp add: max_fix_attempts_def)

lemma repair_loop_exhausted:
  assumes "3 \<le> n"
  shows "repair_loop env n st = (Returned (error_object env), st)"
  using assms by (subst repair_loop.simps) (simp add: max_fix_attempts_def)

text \<open>
  The ways in which a run gives no answer: it times out, it ends with a non-zero
  return code and no missing module to install, its output is not shaped like JSON,
  or its output does not parse.
\<close>

lemma run_and_validate_timeout:
  assumes "exec env a k (code_file st) = RunTimeout"
  shows "fst (run_and_validate env a k st) = None"
  using assms by (simp add: run_and_validate_def run_script_def Let_def)

lemma run_and_validate_nonzero_exit:
  assumes "exec env a k (code_file st) = Completed rc out err"
    and "rc \<noteq> 0" and "search_missing err = None"
  shows "fst (run_and_validate env a k st) = None"
  using assms by (simp add: run_and_validate_def run_script_def validate_def Let_def)

lemma run_and_validate_invalid_output:
  assumes "exec env a k (code_file st) = Completed 0 out err"
    and "\<not> is_valid_json_output (extract_json_from_output (strip out))"
  shows "fst (run_and_validate env a k st) = None"
  using assms by (simp add: run_and_validate_def run_script_def validate_def Let_def)

lemma run_and_validate_unparseable_output:
  assumes "exec env a k (code_file st) = Completed 0 out err"
    and "loads env (extract_json_from_output (strip out)) = Inl e"
  shows "fst (run_and_validate env a k st) = None"
  using assms by (simp add: run_and_validate_def run_script_def validate_def Let_def)

text \<open>After three failed tries \<open>ping_horizon\<close> returns the error dictionary.\<close>

lemma ping_loop_retry:
  assumes "tries < max_tries" and "post tries = Inl e"
  shows "ping_loop post max_tries tries = ping_loop post max_tries (Suc tries)"
  using assms by (subst ping_loop.simps) simp

lemma ping_loop_exhausted:
  assumes "max_tries \<le> tries"
  shows "ping_loop post max_tries tries
           = JObj [(''error'', JStr ''Gemini failed after max retries'')]"
  using assms by (subst ping_loop.simps) simp

lemma ping_horizon_gives_up:
  assumes "post 0 = Inl e0" and "post (Suc 0) = Inl e1" and "post (Suc (Suc 0)) = Inl e2"
  shows "ping_horizon post = JObj [(''error'', JStr ''Gemini failed after max retries'')]"
proof -
  have "ping_loop post 3 0 = ping_loop post 3 (Suc 0)"
    using ping_loop_retry [of 0 3 post e0] assms(1) by simp
  also have "\<dots> = ping_loop post 3 (Suc (Suc 0))"
    using ping_loop_retry [of "Suc 0" 3 post e1] assms(2) by simp
  also have "\<dots> = ping_loop post 3 (Suc (Suc (Suc 0)))"
    using ping_loop_retry [of "Suc (Suc 0)" 3 post e2] assms(3) by simp
  also have "\<dots> = JObj [(''error'', JStr ''Gemini failed after max retries'')]"
    by (rule ping_loop_exhausted) simp
  finally show ?thesis by (simp add: ping_horizon_def)
qed

text \<open>Three iterations without an answer: the loop leaves with the structured error.\<close>

lemma repair_loop_three_failures:
  assumes "fst (fix_iteration env 1 st) = None"
    and "fst (fix_iteration env 2 (snd (fix_iteration env 1 st))) = None"
    and "fst (fix_iteration env 3
               (snd (fix_iteration env 2 (snd (fix_iteration env 1 st))))) = None"
  shows "repair_loop env 0 st
           = (Returned (error_object env),
              snd (fix_iteration env 3
                     (snd (fix_iteration env 2 (snd (fix_iteration env 1 st))))))"
    and "fix_attempts (events (snd (repair_loop env 0 st)))
           = fix_attempts (events st) @ [1, 2, 3]"
proof -
  let ?sa = "snd (fix_iteration env (Suc 0) st)"
  let ?sb = "snd (fix_iteration env (Suc (Suc 0)) ?sa)"
  let ?sc = "snd (fix_iteration env (Suc (Suc (Suc 0))) ?sb)"
  have ia: "fix_iteration env (Suc 0) st = (None, ?sa)"
    using assms(1) by (simp add: prod_eq_iff)
  have ib: "fix_iteration env (Suc (Suc 0)) ?sa = (None, ?sb)"
    using assms(2) by (simp add: prod_eq_iff numeral_2_eq_2)
  have ic: "fix_iteration env (Suc (Suc (Suc 0))) ?sb = (None, ?sc)"
    using assms(3) by (simp add: prod_eq_iff numeral_2_eq_2 numeral_3_eq_3)
  have la: "repair_loop env 0 st = repair_loop env (Suc 0) ?sa"
    using repair_loop_step_none [of 0 env st ?sa] ia by simp
  have lb: "repair_loop env (Suc 0) ?sa = repair_loop env (Suc (Suc 0)) ?sb"
    using repair_loop_step_none [of "Suc 0" env ?sa ?sb] ib by simp
  have lc: "repair_loop env (Suc (Suc 0)) ?sb = repair_loop env (Suc (Suc (Suc 0))) ?sc"
    using repair_loop_step_none [of "Suc (Suc 0)" env ?sb ?sc] ic by simp
  have ld: "repair_loop env (Suc (Suc (Suc 0))) ?sc = (Returned (error_object env), ?sc)"
    using repair_loop_exhausted [of "Suc (Suc (Suc 0))" env ?sc] by simp
  from la lb lc ld have all: "repair_loop env 0 st = (Returned (error_object env), ?sc)"
    by simp
  then show "repair_loop env 0 st
           = (Returned (error_object env),
              snd (fix_iteration env 3
                     (snd (fix_iteration env 2 (snd (fix_iteration env 1 st))))))"
    by (simp add: numeral_2_eq_2 numeral_3_eq_3)
  have ea: "fix_attempts (events ?sa) = fix_attempts (events st) @ [Suc 0]"
    by (rule fix_attempts_fix_iteration)
  have eb: "fix_attempts (events ?sb) = fix_attempts (events ?sa) @ [Suc (Suc 0)]"
    by (rule fix_attempts_fix_iteration)
  have ec: "fix_attempts (events ?sc) = fix_attempts (events ?sb) @ [Suc (Suc (Suc 0))]"
    by (rule fix_attempts_fix_iteration)
  from all ea eb ec show "fix_attempts (events (snd (repair_loop env 0 st)))
           = fix_attempts (events st) @ [1, 2, 3]"
    by (simp add: numeral_2_eq_2 numeral_3_eq_3)
qed

text \<open>
  C3, as stated, fails: the pipeline does not always end in a parsed answer or the
  structured error.  The synthesis response is resolved and the program file is
  first written outside any \<open>try\<close>, and an exception there leaves \<open>aianalyst\<close>
  before the first run.  Three requests show it.  In the first the three tries of
  the synthesis request fail, \<open>ping_horizon\<close> returns its error dictionary, and
  \<open>aianalyst\<close> raises \<open>ValueError\<close>.  In the second the response has an empty
  list of candidates, and \<open>aianalyst\<close> raises \<open>IndexError\<close>.  In the third the
  program text cannot be encoded in the encoding of the locale: the first write
  raises and leaves the program file empty.  No run and no fix attempt takes place
  in any of them.
\<close>

theorem pipeline_raises_before_first_run:
  "aianalyst
     \<lparr>write_program = (\<lambda>c. Written),
      exec = (\<lambda>a k code. Completed 0 ''{}'' []),
      pip_install = (\<lambda>a k m. Inr ()),
      post_synthesis = (\<lambda>t. Inl (OtherError ''ConnectionError'')),
      post_fix = (\<lambda>n t. Inr (JObj [])),
      loads = (\<lambda>s. Inr (JObj [])),
      time_start = (0::int),
      time_end = 1,
      float_sub = (\<lambda>x y. x - y)\<rparr>
     []
     ''old''
   = (Raised (ValueError ''Unexpected Horizon response format''),
      \<lparr>code_file = ''old'', events = []\<rparr>)
   \<and> aianalyst
     \<lparr>write_program = (\<lambda>c. Written),
      exec = (\<lambda>a k code. Completed 0 ''{}'' []),
      pip_install = (\<lambda>a k m. Inr ()),
      post_synthesis = (\<lambda>t. Inr (JObj [(''candidates'', JArr [])])),
      post_fix = (\<lambda>n t. Inr (JObj [])),
      loads = (\<lambda>s. Inr (JObj [])),
      time_start = (0::int),
      time_end = 1,
      float_sub = (\<lambda>x y. x - y)\<rparr>
     []
     ''old''
   = (Raised IndexError, \<lparr>code_file = ''old'', events = []\<rparr>)
   \<and> aianalyst
     \<lparr>write_program = (\<lambda>c. NotEncoded (OtherError ''UnicodeEncodeError'')),
      exec = (\<lambda>a k code. Completed 0 ''{}'' []),
      pip_install = (\<lambda>a k m. Inr ()),
      post_synthesis = (\<lambda>t. Inr (JObj [(''choices'',
                         JArr [JObj [(''message'',
                           JObj [(''content'', JStr ''print(0)'')])]])])),
      post_fix = (\<lambda>n t. Inr (JObj [])),
      loads = (\<lambda>s. Inr (JObj [])),
      time_start = (0::int),
      time_end = 1,
      float_sub = (\<lambda>x y. x - y)\<rparr>
     []
     ''old''
   = (Raised (OtherError ''UnicodeEncodeError''), \<lparr>code_file = [], events = []\<rparr>)"
  by code_simp

text \<open>
  C3, amended.  For every behaviour of the collaborators and every state in which
  the repair loop is entered: the loop ends after \<open>k\<close> iterations with \<open>k\<close> at
  most 3, \<open>fix_attempt\<close> takes the values 1 to \<open>k\<close> in this order, and the loop
  returns either the structured error, and then \<open>k\<close> is 3, or an answer parsed by
  \<open>json.loads\<close>, and then \<open>k\<close> is at least 1.  When the three iterations give no
  answer, \<open>fix_attempt\<close> takes exactly the values 1, 2, 3 and the loop returns the
  structured error.

  For the pipeline from the synthesis response on: the program file is prepared
  exactly when the synthesis response resolves to a string and the first write of the
  program file succeeds.  When it is prepared, the pipeline makes at most three fix
  attempts, numbered from 1, and returns a parsed answer or the structured error,
  the latter only after three fix attempts; after an initial run without answer it
  goes on as the repair loop from the state of that run.  When it is not prepared,
  the pipeline raises the exception of the resolution or of the write, with no run
  and no fix attempt.

  The loop is a total function: its termination is proved with the measure
  \<open>max_fix_attempts - fix_attempt\<close>.
\<close>

theorem repair_attempts_are_bounded:
  "(\<exists>k\<le>3. fix_attempts (events (snd (repair_loop env 0 st)))
              = fix_attempts (events st) @ [1 ..< Suc k]
           \<and> (\<exists>v. fst (repair_loop env 0 st) = Returned v
                  \<and> (v = error_object env \<and> k = 3
                     \<or> (\<exists>s. loads env s = Inr v) \<and> 1 \<le> k)))
   \<and> (fst (fix_iteration env 1 st) = None
       \<and> fst (fix_iteration env 2 (snd (fix_iteration env 1 st))) = None
       \<and> fst (fix_iteration env 3
                (snd (fix_iteration env 2 (snd (fix_iteration env 1 st))))) = None
       \<longrightarrow> fix_attempts (events (snd (repair_loop env 0 st)))
             = fix_attempts (events st) @ [1, 2, 3]
           \<and> fst (repair_loop env 0 st) = Returned (error_object env))
   \<and> ((\<exists>st1. prepare env allowed_paths (ping_horizon (post_synthesis env))
                 \<lparr>code_file = old_file, events = []\<rparr> = Inr st1)
        = (\<exists>raw_code.
             response_text ''Unexpected Horizon response format''
               (ping_horizon (post_synthesis env)) = Inr (JStr raw_code)
             \<and> write_program env (strip_fences (strip raw_code)) = Written))
   \<and> (case prepare env allowed_paths (ping_horizon (post_synthesis env))
              \<lparr>code_file = old_file, events = []\<rparr> of
         Inl est \<Rightarrow>
           aianalyst env allowed_paths old_file = (Raised (fst est), snd est)
           \<and> events (snd est) = []
       | Inr st1 \<Rightarrow>
           (\<exists>k\<le>3. fix_attempts (events (snd (aianalyst env allowed_paths old_file)))
                      = [1 ..< Suc k]
                   \<and> (\<exists>v. fst (aianalyst env allowed_paths old_file) = Returned v
                          \<and> (v = error_object env \<and> k = 3
                             \<or> (\<exists>s. loads env s = Inr v)))))
   \<and> (prepare env allowed_paths (ping_horizon (post_synthesis env))
         \<lparr>code_file = old_file, events = []\<rparr> = Inr prepared
       \<and> fst (run_and_validate env 0 0 prepared) = None
       \<longrightarrow> aianalyst env allowed_paths old_file
             = repair_loop env 0 (snd (run_and_validate env 0 0 prepared)))"
proof -
  let ?st = "\<lparr>code_file = old_file, events = []\<rparr>"
  let ?run = "aianalyst env allowed_paths old_file"
  let ?prep = "prepare env allowed_paths (ping_horizon (post_synthesis env)) ?st"
  have empty: "fix_attempts (events ?st) = []"
    by (simp add: fix_attempts_def map_filter_def)
  have loop: "\<exists>k\<le>3. fix_attempts (events (snd (repair_loop env 0 st)))
              = fix_attempts (events st) @ [1 ..< Suc k]
           \<and> (\<exists>v. fst (repair_loop env 0 st) = Returned v
                  \<and> (v = error_object env \<and> k = 3
                     \<or> (\<exists>s. loads env s = Inr v) \<and> 1 \<le> k))"
    by (rule repair_loop_from_zero)
  have persistent: "fst (fix_iteration env 1 st) = None
       \<and> fst (fix_iteration env 2 (snd (fix_iteration env 1 st))) = None
       \<and> fst (fix_iteration env 3
                (snd (fix_iteration env 2 (snd (fix_iteration env 1 st))))) = None
       \<longrightarrow> fix_attempts (events (snd (repair_loop env 0 st)))
             = fix_attempts (events st) @ [1, 2, 3]
           \<and> fst (repair_loop env 0 st) = Returned (error_object env)"
  proof (intro impI, elim conjE)
    assume a: "fst (fix_iteration env 1 st) = None"
      and b: "fst (fix_iteration env 2 (snd (fix_iteration env 1 st))) = None"
      and c: "fst (fix_iteration env 3
                (snd (fix_iteration env 2 (snd (fix_iteration env 1 st))))) = None"
    from repair_loop_three_failures(1) [OF a b c]
    have "fst (repair_loop env 0 st) = Returned (error_object env)" by simp
    with repair_loop_three_failures(2) [OF a b c]
    show "fix_attempts (events (snd (repair_loop env 0 st)))
             = fix_attempts (events st) @ [1, 2, 3]
           \<and> fst (repair_loop env 0 st) = Returned (error_object env)"
      by simp
  qed
  have prepared_iff: "(\<exists>st1. ?prep = Inr st1)
        = (\<exists>raw_code.
             response_text ''Unexpected Horizon response format''
               (ping_horizon (post_synthesis env)) = Inr (JStr raw_code)
             \<and> write_program env (strip_fences (strip raw_code)) = Written)"
    by (rule prepare_succeeds_iff)
  have whole: "case ?prep of
         Inl est \<Rightarrow> ?run = (Raised (fst est), snd est) \<and> events (snd est) = []
       | Inr st1 \<Rightarrow>
           (\<exists>k\<le>3. fix_attempts (events (snd ?run)) = [1 ..< Suc k]
                   \<and> (\<exists>v. fst ?run = Returned v
                          \<and> (v = error_object env \<and> k = 3
                             \<or> (\<exists>s. loads env s = Inr v))))"
  proof (cases ?prep)
    case (Inl est)
    then have r: "?run = (Raised (fst est), snd est)"
      by (simp add: aianalyst_def)
    have "events (snd est) = []"
      using prepare_raises_without_effects [OF Inl] by simp
    with r Inl show ?thesis by simp
  next
    case (Inr st1)
    have e1: "fix_attempts (events st1) = []"
      using fix_attempts_prepare [OF Inr] empty by simp
    obtain r st2 where rv: "run_and_validate env 0 0 st1 = (r, st2)"
      by (cases "run_and_validate env 0 0 st1")
    have e2: "fix_attempts (events st2) = []"
      using fix_attempts_run_and_validate [of env 0 0 st1] rv e1 by simp
    have "\<exists>k\<le>3. fix_attempts (events (snd ?run)) = [1 ..< Suc k]
                   \<and> (\<exists>v. fst ?run = Returned v
                          \<and> (v = error_object env \<and> k = 3
                             \<or> (\<exists>s. loads env s = Inr v)))"
    proof (cases r)
      case (Some v)
      with Inr rv have res: "?run = (Returned v, st2)"
        by (simp add: aianalyst_def)
      from rv Some have "\<exists>s. loads env s = Inr v"
        using run_and_validate_is_parsed [of env 0 0 st1 v] by simp
      with res e2 have "(0::nat) \<le> 3 \<and> fix_attempts (events (snd ?run)) = [1 ..< Suc 0]
                   \<and> (\<exists>v. fst ?run = Returned v
                          \<and> (v = error_object env \<and> (0::nat) = 3
                             \<or> (\<exists>s. loads env s = Inr v)))"
        by simp
      then show ?thesis by blast
    next
      case None
      with Inr rv have res: "?run = repair_loop env 0 st2"
        by (simp add: aianalyst_def)
      from repair_loop_from_zero [of env st2]
      obtain k v where k3: "k \<le> 3"
        and ev: "fix_attempts (events (snd (repair_loop env 0 st2)))
                   = fix_attempts (events st2) @ [1 ..< Suc k]"
        and rv2: "fst (repair_loop env 0 st2) = Returned v"
        and dv: "v = error_object env \<and> k = 3
                 \<or> (\<exists>s. loads env s = Inr v) \<and> 1 \<le> k"
        by blast
      from dv have dv2: "v = error_object env \<and> k = 3 \<or> (\<exists>s. loads env s = Inr v)"
        by blast
      from ev e2 res have "fix_attempts (events (snd ?run)) = [1 ..< Suc k]"
        by simp
      moreover from rv2 res have "fst ?run = Returned v" by simp
      ultimately show ?thesis using k3 dv2 by blast
    qed
    with Inr show ?thesis by simp
  qed
  have goes_on: "?prep = Inr prepared \<and> fst (run_and_validate env 0 0 prepared) = None
       \<longrightarrow> ?run = repair_loop env 0 (snd (run_and_validate env 0 0 prepared))"
    by (auto simp: aianalyst_def split: prod.splits option.splits)
  from loop persistent prepared_iff whole goes_on show ?thesis
    by (intro conjI)
qed

theorem repair_attempts_are_bounded_witness:
  "fix_attempts
     (events (snd (aianalyst
        \<lparr>write_program = (\<lambda>c. Written),
         exec = (\<lambda>a k code. Completed 1 [] ''Traceback''),
         pip_install = (\<lambda>a k m. Inr ()),
         post_synthesis = (\<lambda>t. Inr (JObj [(''choices'',
                            JArr [JObj [(''message'',
                              JObj [(''content'', JStr ''print(0)'')])]])])),
         post_fix = (\<lambda>n t. Inr (JObj [(''choices'',
                            JArr [JObj [(''message'',
                              JObj [(''content'', JStr ''print(1)'')])]])])),
         loads = (\<lambda>s. Inl JSONDecodeError),
         time_start = (100::int),
         time_end = 175,
         float_sub = (\<lambda>x y. x - y)\<rparr>
        []
        ''old'')))
     = [1, 2, 3]
   \<and> fst (aianalyst
        \<lparr>write_program = (\<lambda>c. Written),
         exec = (\<lambda>a k code. Completed 1 [] ''Traceback''),
         pip_install = (\<lambda>a k m. Inr ()),
         post_synthesis = (\<lambda>t. Inr (JObj [(''choices'',
                            JArr [JObj [(''message'',
                              JObj [(''content'', JStr ''print(0)'')])]])])),
         post_fix = (\<lambda>n t. Inr (JObj [(''choices'',
                            JArr [JObj [(''message'',
                              JObj [(''content'', JStr ''print(1)'')])]])])),
         loads = (\<lambda>s. Inl JSONDecodeError),
         time_start = (100::int),
         time_end = 175,
         float_sub = (\<lambda>x y. x - y)\<rparr>
        []
        ''old'')
     = Returned (JObj [(''error'', JStr ''Code execution failed after all attempts''),
                       (''time'', JFloat 75)])"
proof -
  let ?env = "\<lparr>write_program = (\<lambda>c. Written),
         exec = (\<lambda>a k code. Completed 1 [] ''Traceback''),
         pip_install = (\<lambda>a k m. Inr ()),
         post_synthesis = (\<lambda>t. Inr (JObj [(''choices'',
                            JArr [JObj [(''message'',
                              JObj [(''content'', JStr ''print(0)'')])]])])),
         post_fix = (\<lambda>n t. Inr (JObj [(''choices'',
                            JArr [JObj [(''message'',
                              JObj [(''content'', JStr ''print(1)'')])]])])),
         loads = (\<lambda>s. Inl JSONDecodeError),
         time_start = (100::int),
         time_end = 175,
         float_sub = (\<lambda>x y. x - y)\<rparr> :: int pipeline_env"
  let ?prepared = "projr (prepare ?env [] (ping_horizon (post_synthesis ?env))
                            \<lparr>code_file = ''old'', events = []\<rparr>)"
  let ?initial = "snd (run_and_validate ?env 0 0 ?prepared)"
  note all = repair_attempts_are_bounded [of ?env ?initial "[]" "''old''" ?prepared]
  have p: "prepare ?env [] (ping_horizon (post_synthesis ?env))
             \<lparr>code_file = ''old'', events = []\<rparr> = Inr ?prepared"
    by code_simp
  have i: "fst (run_and_validate ?env 0 0 ?prepared) = None"
    by code_simp
  have a: "fst (fix_iteration ?env 1 ?initial) = None"
    by code_simp
  have b: "fst (fix_iteration ?env 2 (snd (fix_iteration ?env 1 ?initial))) = None"
    by code_simp
  have c: "fst (fix_iteration ?env 3
                 (snd (fix_iteration ?env 2 (snd (fix_iteration ?env 1 ?initial))))) = None"
    by code_simp
  have e: "fix_attempts (events ?initial) = []"
    by code_simp
  have o: "error_object ?env
             = JObj [(''error'', JStr ''Code execution failed after all attempts''),
                     (''time'', JFloat 75)]"
    by (simp add: error_object_def)
  have r: "aianalyst ?env [] ''old'' = repair_loop ?env 0 ?initial"
    by (rule all [THEN conjunct2, THEN conjunct2, THEN conjunct2, THEN conjunct2,
                  THEN mp, OF conjI [OF p i]])
  have l: "fix_attempts (events (snd (repair_loop ?env 0 ?initial)))
             = fix_attempts (events ?initial) @ [1, 2, 3]
           \<and> fst (repair_loop ?env 0 ?initial) = Returned (error_object ?env)"
    by (rule all [THEN conjunct2, THEN conjunct1, THEN mp,
                  OF conjI [OF a conjI [OF b c]]])
  from l have la: "fix_attempts (events (snd (repair_loop ?env 0 ?initial)))
                     = fix_attempts (events ?initial) @ [1, 2, 3]"
    and lb: "fst (repair_loop ?env 0 ?initial) = Returned (error_object ?env)"
    by (rule conjunct1, rule conjunct2)
  show ?thesis
    unfolding r la lb e o by simp
qed

text \<open>
  C4.  When the initial attempt gives no answer and each of the three fix attempts
  gives no answer (because the run raised or timed out, ended with a non-zero
  return code, printed something that is not shaped like JSON or does not parse, or
  because the fix response could not be used), \<open>aianalyst\<close> returns exactly the
  object with the keys \<open>error\<close> and \<open>time\<close>, the latter holding the difference of
  the two clock readings, and raises nothing.
\<close>

theorem exhaustion_returns_error_object:
  assumes "prepare env allowed_paths (ping_horizon (post_synthesis env))
             \<lparr>code_file = old_file, events = []\<rparr> = Inr st"
    and "run_and_validate env 0 0 st = (None, st0)"
    and "fix_iteration env 1 st0 = (None, st1)"
    and "fix_iteration env 2 st1 = (None, st2)"
    and "fix_iteration env 3 st2 = (None, st3)"
  shows "aianalyst env allowed_paths old_file
           = (Returned
                (JObj [(''error'', JStr ''Code execution failed after all attempts''),
                       (''time'', JFloat (float_sub env (time_end env) (time_start env)))]),
              st3)"
proof -
  have l0: "repair_loop env 0 st0 = repair_loop env (Suc 0) st1"
    using repair_loop_step_none [of 0 env st0 st1] assms(3) by simp
  have l1: "repair_loop env (Suc 0) st1 = repair_loop env (Suc (Suc 0)) st2"
    using repair_loop_step_none [of "Suc 0" env st1 st2] assms(4)
    by (simp add: numeral_2_eq_2)
  have l2: "repair_loop env (Suc (Suc 0)) st2 = repair_loop env (Suc (Suc (Suc 0))) st3"
    using repair_loop_step_none [of "Suc (Suc 0)" env st2 st3] assms(5)
    by (simp add: numeral_3_eq_3)
  have l3: "repair_loop env (Suc (Suc (Suc 0))) st3 = (Returned (error_object env), st3)"
    using repair_loop_exhausted [of "Suc (Suc (Suc 0))" env st3] by simp
  have "aianalyst env allowed_paths old_file = repair_loop env 0 st0"
    using assms(1,2) by (simp add: aianalyst_def)
  with l0 l1 l2 l3 show ?thesis by (simp add: error_object_def)
qed

theorem exhaustion_returns_error_object_witness:
  "fst (aianalyst
          \<lparr>write_program = (\<lambda>c. Written),
           exec = (\<lambda>a k code.
                     if a = 0 then RunTimeout
                     else if k = 0 then Completed 1 [] ''SyntaxError''
                     else if a = 1 then Completed 1 [] ''NameError''
                     else if a = 2 then Completed 0 ''no result'' []
                     else Completed 0 ''{'a': 1}'' []),
           pip_install = (\<lambda>a k m. Inr ()),
           post_synthesis = (\<lambda>t. Inr (JObj [(''choices'',
                              JArr [JObj [(''message'',
                                JObj [(''content'', JStr ''print(0)'')])]])])),
           post_fix = (\<lambda>n t. if t = 0 then Inl (OtherError ''503'')
                            else Inr (JObj [(''choices'',
                              JArr [JObj [(''message'',
                                JObj [(''content'', JStr ''print(1)'')])]])])),
           loads = (\<lambda>s. Inl JSONDecodeError),
           time_start = (100::int),
           time_end = 175,
           float_sub = (\<lambda>x y. x - y)\<rparr>
          [''data.csv'']
          ''old'')
     = Returned (JObj [(''error'', JStr ''Code execution failed after all attempts''),
                       (''time'', JFloat 75)])"
proof -
  let ?env = "\<lparr>write_program = (\<lambda>c. Written),
           exec = (\<lambda>a k code.
                     if a = 0 then RunTimeout
                     else if k = 0 then Completed 1 [] ''SyntaxError''
                     else if a = 1 then Completed 1 [] ''NameError''
                     else if a = 2 then Completed 0 ''no result'' []
                     else Completed 0 ''{'a': 1}'' []),
           pip_install = (\<lambda>a k m. Inr ()),
           post_synthesis = (\<lambda>t. Inr (JObj [(''choices'',
                              JArr [JObj [(''message'',
                                JObj [(''content'', JStr ''print(0)'')])]])])),
           post_fix = (\<lambda>n t. if t = 0 then Inl (OtherError ''503'')
                            else Inr (JObj [(''choices'',
                              JArr [JObj [(''message'',
                                JObj [(''content'', JStr ''print(1)'')])]])])),
           loads = (\<lambda>s. Inl JSONDecodeError),
           time_start = (100::int),
           time_end = 175,
           float_sub = (\<lambda>x y. x - y)\<rparr> :: int pipeline_env"
  let ?prepared = "projr (prepare ?env [''data.csv''] (ping_horizon (post_synthesis ?env))
                            \<lparr>code_file = ''old'', events = []\<rparr>)"
  let ?after_initial = "snd (run_and_validate ?env 0 0 ?prepared)"
  let ?after_one = "snd (fix_iteration ?env 1 ?after_initial)"
  let ?after_two = "snd (fix_iteration ?env 2 ?after_one)"
  let ?after_three = "snd (fix_iteration ?env 3 ?after_two)"
  have p: "prepare ?env [''data.csv''] (ping_horizon (post_synthesis ?env))
             \<lparr>code_file = ''old'', events = []\<rparr> = Inr ?prepared"
    by code_simp
  have a0: "run_and_validate ?env 0 0 ?prepared = (None, ?after_initial)"
    by code_simp
  have a1: "fix_iteration ?env 1 ?after_initial = (None, ?after_one)"
    by code_simp
  have a2: "fix_iteration ?env 2 ?after_one = (None, ?after_two)"
    by code_simp
  have a3: "fix_iteration ?env 3 ?after_two = (None, ?after_three)"
    by code_simp
  from exhaustion_returns_error_object [OF p a0 a1 a2 a3] show ?thesis
    by simp
qed

text \<open>
  C9.  When the synthesis response is a dictionary with neither the key
  \<open>candidates\<close> nor the key \<open>choices\<close>, \<open>aianalyst\<close> raises \<open>ValueError\<close>; the
  program file is untouched and no effect has taken place: no write, no sanitizer
  pass, no run, no fix attempt.  The error dictionary that \<open>ping_horizon\<close> returns
  after three failed tries is such a response.
\<close>

theorem synthesis_protocol_error_is_fatal:
  assumes "ping_horizon (post_synthesis env) = JObj kvs"
    and "map_of kvs ''candidates'' = None"
    and "map_of kvs ''choices'' = None"
  shows "aianalyst env allowed_paths old_file
           = (Raised (ValueError ''Unexpected Horizon response format''),
              \<lparr>code_file = old_file, events = []\<rparr>)"
  using assms
  by (simp add: aianalyst_def prepare_def response_text_def py_in_def)

theorem synthesis_protocol_error_is_fatal_witness:
  "aianalyst
     \<lparr>write_program = (\<lambda>c. Written),
      exec = (\<lambda>a k code. Completed 0 ''{}'' []),
      pip_install = (\<lambda>a k m. Inr ()),
      post_synthesis = (\<lambda>t. Inl (OtherError ''ReadTimeout'')),
      post_fix = (\<lambda>n t. Inr (JObj [])),
      loads = (\<lambda>s. Inr (JObj [])),
      time_start = (0::int),
      time_end = 1,
      float_sub = (\<lambda>x y. x - y)\<rparr>
     [''data.csv'']
     ''old''
   = (Raised (ValueError ''Unexpected Horizon response format''),
      \<lparr>code_file = ''old'', events = []\<rparr>)"
proof -
  let ?env = "\<lparr>write_program = (\<lambda>c. Written),
      exec = (\<lambda>a k code. Completed 0 ''{}'' []),
      pip_install = (\<lambda>a k m. Inr ()),
      post_synthesis = (\<lambda>t. Inl (OtherError ''ReadTimeout'')),
      post_fix = (\<lambda>n t. Inr (JObj [])),
      loads = (\<lambda>s. Inr (JObj [])),
      time_start = (0::int),
      time_end = 1,
      float_sub = (\<lambda>x y. x - y)\<rparr> :: int pipeline_env"
  have r: "ping_horizon (post_synthesis ?env)
             = JObj [(''error'', JStr ''Gemini failed after max retries'')]"
    by code_simp
  have a: "map_of [(''error'', JStr ''Gemini failed after max retries'' :: int json)]
             ''candidates'' = None"
    by simp
  have b: "map_of [(''error'', JStr ''Gemini failed after max retries'' :: int json)]
             ''choices'' = None"
    by simp
  from synthesis_protocol_error_is_fatal [OF r a b] show ?thesis .
qed



end
